theory Spec2Isabelle
  imports Main "HOL-Library.List_Lexorder" "HOL-Library.Sublist"
begin

section \<open>Python strings\<close>

text \<open>
  A Python \<open>str\<close> is a sequence of Unicode code points. A code point is its
  number (what \<open>ord\<close> returns); a literal of the script is written
  \<open>lit ''...''\<close> where it is ASCII and as a list of numbers otherwise.
\<close>

type_synonym cp = int
type_synonym pystr = "cp list"

definition lit :: "string \<Rightarrow> pystr" where
  "lit s = map of_char s"

text \<open>The code points \<open>str.isspace\<close> accepts; \<open>str.strip()\<close> removes exactly these.\<close>

definition isspace :: "cp \<Rightarrow> bool" where
  "isspace c \<longleftrightarrow>
     (9 \<le> c \<and> c \<le> 13) \<or> (28 \<le> c \<and> c \<le> 32) \<or> c = 133 \<or> c = 160 \<or> c = 5760 \<or>
     (8192 \<le> c \<and> c \<le> 8202) \<or> c = 8232 \<or> c = 8233 \<or> c = 8239 \<or> c = 8287 \<or> c = 12288"

definition lstrip :: "pystr \<Rightarrow> pystr" where
  "lstrip s = dropWhile isspace s"

definition rstrip :: "pystr \<Rightarrow> pystr" where
  "rstrip s = rev (dropWhile isspace (rev s))"

definition strip :: "pystr \<Rightarrow> pystr" where
  "strip s = rstrip (lstrip s)"

text \<open>\<open>s.strip(chars)\<close>: the characters of \<open>chars\<close> are removed at both ends.\<close>

definition strip_of :: "pystr \<Rightarrow> pystr \<Rightarrow> pystr" where
  "strip_of chars s =
     rev (dropWhile (\<lambda>c. c \<in> set chars) (rev (dropWhile (\<lambda>c. c \<in> set chars) s)))"

text \<open>
  \<open>s.replace(old, new)\<close> where \<open>old\<close> is one code point, as in every call of the
  script.
\<close>

definition replace :: "cp \<Rightarrow> pystr \<Rightarrow> pystr \<Rightarrow> pystr" where
  "replace old new s = concat (map (\<lambda>c. if c = old then new else [c]) s)"

text \<open>\<open>sep.join(parts)\<close>.\<close>

fun join :: "pystr \<Rightarrow> pystr list \<Rightarrow> pystr" where
  "join sep [] = []"
| "join sep [p] = p"
| "join sep (p # q # ps) = p @ sep @ join sep (q # ps)"

text \<open>\<open>sub in s\<close>.\<close>

fun contains :: "pystr \<Rightarrow> pystr \<Rightarrow> bool" where
  "contains sub [] = (sub = [])"
| "contains sub (c # cs) = (prefix sub (c # cs) \<or> contains sub cs)"

definition endswith :: "pystr \<Rightarrow> pystr \<Rightarrow> bool" where
  "endswith s e = suffix e s"

section \<open>The library the script calls\<close>

text \<open>
  A calendar date, as \<open>datetime.date\<close> holds it. A library call either returns or
  raises an exception (every exception the script catches is an \<open>Exception\<close>).
\<close>

record date =
  year :: nat
  month :: nat
  day :: nat

datatype 'a outcome = Returns 'a | Raises

text \<open>
  A value that \<open>json.loads\<close> returns: \<open>None\<close>, a boolean, a number, a string, a
  list or a dictionary with its members in order. A number stands by the literal that
  was read; that Python takes \<open>1\<close>, \<open>1.0\<close> and \<open>True\<close> for equal is not
  modelled, and no property below depends on it.
\<close>

datatype json =
  JNull | JBool bool | JNum pystr | JStr pystr | JList "json list" | JObj "(pystr \<times> json) list"

text \<open>
  The Unicode tables and parsers of the Python library are not part of the repository
  and change with the interpreter's version, and the clock and the file system are
  inputs of the run. The script is modelled over any such library:
  \<^item> \<open>str_lower\<close> is \<open>str.lower\<close>;
  \<^item> \<open>re_digit\<close> is the class \<open>\d\<close> of \<open>re\<close> on \<open>str\<close> patterns;
  \<^item> \<open>html_unescape\<close> is \<open>html.unescape\<close>;
  \<^item> \<open>strptime_rfc822\<close> is \<open>datetime.strptime(s, "%a, %d %b %Y %H:%M:%S %z").date()\<close>;
  \<^item> \<open>fromisoformat\<close> is \<open>datetime.fromisoformat(s).date()\<close>;
  \<^item> \<open>utc_today\<close> is \<open>datetime.now(timezone.utc).date()\<close>;
  \<^item> \<open>py_sorted\<close> is \<open>sorted\<close> on a set of JSON values, which raises
    \<open>TypeError\<close> when it compares two values that have no order;
  \<^item> \<open>mkdir_ok slug\<close> tells whether \<open>ep_dir.mkdir(parents=True, exist_ok=True)\<close>
    succeeds for the directory of that slug; it raises \<open>OSError\<close> otherwise, as for
    a name beyond the limit of the file system.
\<close>

record pylib =
  str_lower :: "pystr \<Rightarrow> pystr"
  re_digit :: "cp \<Rightarrow> bool"
  html_unescape :: "pystr \<Rightarrow> pystr"
  strptime_rfc822 :: "pystr \<Rightarrow> date outcome"
  fromisoformat :: "pystr \<Rightarrow> date outcome"
  utc_today :: date
  py_sorted :: "json set \<Rightarrow> json list outcome"
  mkdir_ok :: "pystr \<Rightarrow> bool"

section \<open>slugify\<close>

text \<open>The class \<open>[a-z0-9]\<close>.\<close>

definition slug_alnum :: "cp \<Rightarrow> bool" where
  "slug_alnum c \<longleftrightarrow> (97 \<le> c \<and> c \<le> 122) \<or> (48 \<le> c \<and> c \<le> 57)"

text \<open>
  \<open>re.sub(r"[^a-z0-9]+", "-", text)\<close>: at a code point outside the class the match
  extends over the whole run, which is replaced by one hyphen.
\<close>

function sub_nonalnum :: "pystr \<Rightarrow> pystr" where
  "sub_nonalnum [] = []"
| "sub_nonalnum (c # cs) =
     (if \<not> slug_alnum c then 45 # sub_nonalnum (dropWhile (\<lambda>x. \<not> slug_alnum x) cs)
      else c # sub_nonalnum cs)"
  by pat_completeness auto
termination
  by (relation "measure length") (auto simp: less_Suc_eq_le length_dropWhile_le)

text \<open>\<open>re.sub(r"-{2,}", "-", text)\<close>: a run of two or more hyphens becomes one.\<close>

function sub_hyphens :: "pystr \<Rightarrow> pystr" where
  "sub_hyphens [] = []"
| "sub_hyphens (c # cs) =
     (if c = 45 \<and> (case cs of [] \<Rightarrow> False | d # _ \<Rightarrow> d = 45)
      then 45 # sub_hyphens (dropWhile (\<lambda>x. x = 45) cs)
      else c # sub_hyphens cs)"
  by pat_completeness auto
termination
  by (relation "measure length") (auto simp: less_Suc_eq_le length_dropWhile_le)

definition slugify :: "('z pylib_scheme) \<Rightarrow> pystr \<Rightarrow> pystr" where
  "slugify L text0 =
     (let text1 = str_lower L (strip text0);
          text2 = replace 229 (lit ''a'') (replace 248 (lit ''o'') (replace 230 (lit ''ae'') text1));
          text3 = sub_nonalnum text2;
          text4 = strip_of (lit ''-'') (sub_hyphens text3)
      in if text4 = [] then lit ''episode'' else text4)"

section \<open>Small helpers of the script\<close>

text \<open>
  \<open>item.find(tag)\<close> is \<open>None\<close> when the item has no such child, and the text of a
  child is \<open>None\<close> when the child is empty: an element is modelled by its text.
\<close>

type_synonym element = "pystr option"

definition text_or :: "element option \<Rightarrow> pystr" where
  "text_or elem = (case elem of Some (Some t) \<Rightarrow> t | _ \<Rightarrow> [])"

text \<open>
  \<open>re.sub(pattern, repl, s)\<close> for a pattern that never matches the empty string:
  \<open>m\<close> tells whether the pattern matches at the head of its argument and returns
  what follows the match.
\<close>

function re_sub :: "(pystr \<Rightarrow> pystr option) \<Rightarrow> pystr \<Rightarrow> pystr \<Rightarrow> pystr" where
  "re_sub m repl [] = []"
| "re_sub m repl (c # cs) =
     (case m (c # cs) of
        None \<Rightarrow> c # re_sub m repl cs
      | Some rest \<Rightarrow>
          if length rest \<le> length cs then repl @ re_sub m repl rest else c # re_sub m repl cs)"
  by pat_completeness auto
termination
  by (relation "measure (\<lambda>(m, repl, s). length s)") auto

text \<open>A letter of a pattern compiled with \<open>re.I\<close>, given in lower case.\<close>

definition letter_i :: "cp \<Rightarrow> cp \<Rightarrow> bool" where
  "letter_i l c \<longleftrightarrow> c = l \<or> c = l - 32"

definition expect :: "(cp \<Rightarrow> bool) \<Rightarrow> pystr \<Rightarrow> pystr option" where
  "expect P s = (case s of [] \<Rightarrow> None | c # cs \<Rightarrow> if P c then Some cs else None)"

definition optional :: "(cp \<Rightarrow> bool) \<Rightarrow> pystr \<Rightarrow> pystr" where
  "optional P s = (case s of [] \<Rightarrow> s | c # cs \<Rightarrow> if P c then cs else s)"

text \<open>\<open><br\s*/?>\<close> with \<open>re.I\<close>.\<close>

definition match_br :: "pystr \<Rightarrow> pystr option" where
  "match_br s =
     Option.bind (expect (\<lambda>c. c = 60) s) (\<lambda>s1.
     Option.bind (expect (letter_i 98) s1) (\<lambda>s2.
     Option.bind (expect (letter_i 114) s2) (\<lambda>s3.
     expect (\<lambda>c. c = 62) (optional (\<lambda>c. c = 47) (dropWhile isspace s3)))))"

text \<open>\<open></p>\s*<p>\<close> with \<open>re.I\<close>.\<close>

definition match_p_p :: "pystr \<Rightarrow> pystr option" where
  "match_p_p s =
     Option.bind (expect (\<lambda>c. c = 60) s) (\<lambda>s1.
     Option.bind (expect (\<lambda>c. c = 47) s1) (\<lambda>s2.
     Option.bind (expect (letter_i 112) s2) (\<lambda>s3.
     Option.bind (expect (\<lambda>c. c = 62) s3) (\<lambda>s4.
     Option.bind (expect (\<lambda>c. c = 60) (dropWhile isspace s4)) (\<lambda>s5.
     Option.bind (expect (letter_i 112) s5) (\<lambda>s6.
     expect (\<lambda>c. c = 62) s6))))))"

text \<open>\<open><[^>]+>\<close>.\<close>

definition match_tag :: "pystr \<Rightarrow> pystr option" where
  "match_tag s =
     Option.bind (expect (\<lambda>c. c = 60) s) (\<lambda>s1.
       if takeWhile (\<lambda>c. c \<noteq> 62) s1 = [] then None
       else expect (\<lambda>c. c = 62) (dropWhile (\<lambda>c. c \<noteq> 62) s1))"

definition strip_html :: "('z pylib_scheme) \<Rightarrow> pystr \<Rightarrow> pystr" where
  "strip_html L s0 =
     (let s1 = html_unescape L s0;
          s2 = re_sub match_br [10] s1;
          s3 = re_sub match_p_p [10, 10] s2;
          s4 = re_sub match_tag [] s3
      in strip s4)"

definition yml_escape_inline :: "pystr \<Rightarrow> pystr" where
  "yml_escape_inline s = replace 34 [92, 34] s"

text \<open>
  \<open>str.splitlines()\<close>: a line ends at each of the ten line boundaries, \<open>\r\n\<close>
  counts as one, and no empty last line is produced.
\<close>

definition is_linebreak :: "cp \<Rightarrow> bool" where
  "is_linebreak c \<longleftrightarrow>
     (10 \<le> c \<and> c \<le> 13) \<or> (28 \<le> c \<and> c \<le> 30) \<or> c = 133 \<or> c = 8232 \<or> c = 8233"

function splitlines_from :: "pystr \<Rightarrow> pystr \<Rightarrow> pystr list" where
  "splitlines_from cur [] = (if cur = [] then [] else [cur])"
| "splitlines_from cur (c # cs) =
     (if is_linebreak c
      then cur # splitlines_from []
             (case cs of [] \<Rightarrow> [] | d # ds \<Rightarrow> if c = 13 \<and> d = 10 then ds else cs)
      else splitlines_from (cur @ [c]) cs)"
  by pat_completeness auto
termination
  by (relation "measure (\<lambda>(cur, s). length s)") (auto split: list.splits)

definition splitlines :: "pystr \<Rightarrow> pystr list" where
  "splitlines s = splitlines_from [] s"

definition yml_block :: "pystr \<Rightarrow> pystr" where
  \<open>yml_block s0 =
     (let s = rstrip s0 in
      if s = [] then lit ''""''
      else let lines = splitlines s;
               indented = join [10] (map (\<lambda>ln. rstrip (lit ''  '' @ ln)) lines)
           in lit ''|'' @ [10] @ indented)\<close>

text \<open>
  \<open>re.search(r"/(\d+)/?$", link)\<close>. After a slash the digits are taken greedily
  (neither a slash nor a newline is a digit), then an optional slash, and \<open>$\<close> holds
  at the end of the string and before a newline that ends it. The search returns the
  leftmost match.
\<close>

definition eid_at :: "(cp \<Rightarrow> bool) \<Rightarrow> pystr \<Rightarrow> pystr option" where
  "eid_at digit s =
     (let ds = takeWhile digit s; r = optional (\<lambda>c. c = 47) (dropWhile digit s)
      in if ds \<noteq> [] \<and> (r = [] \<or> r = [10]) then Some ds else None)"

fun re_search_eid :: "(cp \<Rightarrow> bool) \<Rightarrow> pystr \<Rightarrow> pystr option" where
  "re_search_eid digit [] = None"
| "re_search_eid digit (c # cs) =
     (if c = 47
      then (case eid_at digit cs of Some ds \<Rightarrow> Some ds | None \<Rightarrow> re_search_eid digit cs)
      else re_search_eid digit cs)"

definition episode_id_from_link :: "('z pylib_scheme) \<Rightarrow> pystr \<Rightarrow> pystr option" where
  "episode_id_from_link L link0 = re_search_eid (re_digit L) link0"

section \<open>The episode transformer\<close>

subsection \<open>Dates\<close>

text \<open>\<open>str(n)\<close> for a natural number, and \<open>s.zfill(w)\<close> for a string of digits.\<close>

fun decimal :: "nat \<Rightarrow> pystr" where
  "decimal n = (if n < 10 then [48 + int n] else decimal (n div 10) @ [48 + int (n mod 10)])"

declare decimal.simps [simp del]

definition zfill :: "nat \<Rightarrow> pystr \<Rightarrow> pystr" where
  "zfill w s = replicate (w - length s) 48 @ s"

text \<open>\<open>d.isoformat()\<close>, that is \<open>YYYY-MM-DD\<close>.\<close>

definition isoformat :: "date \<Rightarrow> pystr" where
  "isoformat d =
     zfill 4 (decimal (year d)) @ lit ''-'' @ zfill 2 (decimal (month d)) @ lit ''-'' @
     zfill 2 (decimal (day d))"

text \<open>
  \<open>d.strftime("%d-%m-%Y")\<close>. The year is printed as the C library prints it, without
  padding; it has four digits from the year 1000 on.
\<close>

definition strftime_dmy :: "date \<Rightarrow> pystr" where
  "strftime_dmy d =
     zfill 2 (decimal (day d)) @ lit ''-'' @ zfill 2 (decimal (month d)) @ lit ''-'' @
     decimal (year d)"

text \<open>\<open>try: body  except Exception: handler\<close>.\<close>

definition try_except :: "'a outcome \<Rightarrow> 'a outcome \<Rightarrow> 'a outcome" where
  "try_except body handler = (case body of Returns v \<Rightarrow> Returns v | Raises \<Rightarrow> handler)"

definition parse_date_rfc822 :: "('z pylib_scheme) \<Rightarrow> pystr \<Rightarrow> date outcome" where
  "parse_date_rfc822 L s =
     try_except (strptime_rfc822 L s)
       (try_except (fromisoformat L s)
          (Returns (utc_today L)))"

subsection \<open>Feed items and episode records\<close>

text \<open>
  The children of an \<open>item\<close> element that the script reads. \<open>enclosure_url\<close> is
  \<open>None\<close> without an \<open>enclosure\<close> child, and \<open>Some None\<close> when the child has no
  \<open>url\<close> attribute.
\<close>

record feed_item =
  title_elem :: "element option"
  pubDate_elem :: "element option"
  description_elem :: "element option"
  link_elem :: "element option"
  guid_elem :: "element option"
  enclosure_url :: "pystr option option"

text \<open>The dictionary \<open>build_front_matter\<close> returns, one field for each key.\<close>

record episode =
  title :: pystr
  date :: pystr
  display_date :: pystr
  description :: pystr
  rss_embed :: pystr
  audio_url :: pystr
  link :: pystr
  tags :: "pystr list"
  draft :: bool

definition iframe :: "pystr \<Rightarrow> pystr \<Rightarrow> pystr" where
  \<open>iframe eid t =
     lit ''<iframe src="https://player.rss.com/lytte/'' @ eid @ lit ''" '' @
     lit ''loading="lazy" style="width:100%;height:180px;border:0;overflow:hidden;" '' @
     lit ''title="'' @ t @ lit ''"></iframe>''\<close>

definition build_front_matter :: "('z pylib_scheme) \<Rightarrow> feed_item \<Rightarrow> episode outcome" where
  "build_front_matter L item =
     (let title1 = strip (text_or (title_elem item)) in
      case parse_date_rfc822 L (text_or (pubDate_elem item)) of
        Raises \<Rightarrow> Raises
      | Returns pub_dt \<Rightarrow>
          let iso_date = isoformat pub_dt;
              display_date1 = strftime_dmy pub_dt;
              description_html = text_or (description_elem item);
              description_clean = strip_html L description_html;
              link1 = strip (text_or (link_elem item));
              eid = episode_id_from_link L link1;
              rss_embed1 = (case eid of None \<Rightarrow> []
                            | Some e \<Rightarrow> if e = [] then [] else iframe e title1);
              audio_url1 = (case enclosure_url item of
                              Some (Some url) \<Rightarrow> if url = [] then [] else strip url
                            | _ \<Rightarrow> [])
          in Returns \<lparr>title = title1, date = iso_date, display_date = display_date1,
                description = description_clean, rss_embed = rss_embed1,
                audio_url = audio_url1, link = link1,
                tags = [lit ''lytte'' @ [248] @ lit ''velser'', lit ''podcast''],
                draft = False\<rparr>)"

section \<open>The file writer\<close>

subsection \<open>Front matter and body\<close>

definition FRONTMATTER_ORDER :: "pystr list" where
  "FRONTMATTER_ORDER =
     [lit ''title'', lit ''date'', lit ''display_date'', lit ''description'', lit ''rss_embed'',
      lit ''audio_url'', lit ''link'', lit ''tags'', lit ''draft'']"

text \<open>The values of the dictionary, and \<open>fm.get(key, "")\<close>.\<close>

datatype fmval = Str pystr | Bool bool | Tags "pystr list"

definition fm_get :: "episode \<Rightarrow> pystr \<Rightarrow> fmval" where
  "fm_get fm key =
     (if key = lit ''title'' then Str (title fm)
      else if key = lit ''date'' then Str (date fm)
      else if key = lit ''display_date'' then Str (display_date fm)
      else if key = lit ''description'' then Str (description fm)
      else if key = lit ''rss_embed'' then Str (rss_embed fm)
      else if key = lit ''audio_url'' then Str (audio_url fm)
      else if key = lit ''link'' then Str (link fm)
      else if key = lit ''tags'' then Tags (tags fm)
      else if key = lit ''draft'' then Bool (draft fm)
      else Str [])"

text \<open>
  \<open>str(val)\<close> for a string. The tags are rendered before \<open>str\<close> is reached, and a
  boolean is rendered by \<open>str(val).lower()\<close>, which is \<open>true\<close> or \<open>false\<close>.
\<close>

definition py_str :: "fmval \<Rightarrow> pystr" where
  "py_str v = (case v of Str s \<Rightarrow> s | Bool b \<Rightarrow> (if b then lit ''True'' else lit ''False'')
               | Tags ts \<Rightarrow> [])"

definition render_entry :: "episode \<Rightarrow> pystr \<Rightarrow> pystr" where
  \<open>render_entry fm key =
     (let val = fm_get fm key in
      if key = lit ''tags'' then lit ''tags: ["lytte'' @ [248] @ lit ''velser","podcast"]''
      else if key = lit ''description'' then lit ''description: '' @ yml_block (py_str val)
      else (case val of
              Bool b \<Rightarrow> key @ lit '': '' @ (if b then lit ''true'' else lit ''false'')
            | _ \<Rightarrow> key @ lit '': "'' @ yml_escape_inline (py_str val) @ lit ''"''))\<close>

definition render_front_matter :: "episode \<Rightarrow> pystr" where
  "render_front_matter fm =
     join [10] ([lit ''---''] @ map (render_entry fm) FRONTMATTER_ORDER @ [lit ''---'']) @ [10]"

definition standard_body :: "('z pylib_scheme) \<Rightarrow> episode \<Rightarrow> pystr" where
  "standard_body L fm =
     (let parts = [lit ''{{< episodeplayer >}}''];
          parts = (if description fm \<noteq> []
                   then parts @ [[10] @ lit ''## Beskrivelse'', description fm] else parts);
          parts = parts @ [[10] @ lit ''## Notater'' @ [10] @ lit ''- Viktige punkter:'' @ [10] @
                           lit ''  - '' @ [8230] @ [10] @ lit ''  - '' @ [8230]];
          parts = parts @ [[10] @ lit ''## Lenker''];
          parts = parts @ [lit ''- Original episode: '' @ link fm];
          eid = episode_id_from_link L (link fm);
          parts = (case eid of None \<Rightarrow> parts
                   | Some e \<Rightarrow> if e = [] then parts
                       else parts @ [lit ''- Delbar spiller: https://player.rss.com/lytte/'' @ e])
      in join [10] parts @ [10])"

subsection \<open>Content files\<close>

text \<open>
  The content files, by path: what each holds, and the calls of \<open>write_text\<close> in
  the order they were made. A file is written as given (the line separator of the
  platform is \<open>\n\<close>) and read in text mode, where \<open>\r\n\<close> and \<open>\r\<close> arrive
  as \<open>\n\<close>. Reading a file that does not exist raises. A file holds text, that is,
  what is stored decodes as UTF-8; and the text that is written comes from the XML
  parser and from files that were read, neither of which yields a surrogate code
  point, so that encoding it does not fail.
\<close>

record filesystem =
  files :: "pystr \<rightharpoonup> pystr"
  writes :: "(pystr \<times> pystr) list"

definition write_text :: "filesystem \<Rightarrow> pystr \<Rightarrow> pystr \<Rightarrow> filesystem" where
  "write_text fs path s = fs\<lparr>files := (files fs)(path \<mapsto> s), writes := writes fs @ [(path, s)]\<rparr>"

function universal_newlines :: "pystr \<Rightarrow> pystr" where
  "universal_newlines [] = []"
| "universal_newlines (c # cs) =
     (if c = 13
      then 10 # universal_newlines (case cs of [] \<Rightarrow> [] | d # ds \<Rightarrow> if d = 10 then ds else cs)
      else c # universal_newlines cs)"
  by pat_completeness auto
termination
  by (relation "measure length") (auto split: list.splits)

definition read_text :: "filesystem \<Rightarrow> pystr \<Rightarrow> pystr outcome" where
  "read_text fs path =
     (case files fs path of None \<Rightarrow> Raises | Some stored \<Rightarrow> Returns (universal_newlines stored))"

subsection \<open>The front-matter pattern\<close>

text \<open>
  \<open>re.match(r"^---\r?\n(.*?)\r?\n---\r?\n(.*)$", text, flags=re.DOTALL)\<close>. The first
  group is as short as possible, so it ends at the first place where the closing marker
  line matches; the second group is everything after that line. The result is the pair
  of the two groups.
\<close>

definition match_literal :: "pystr \<Rightarrow> pystr \<Rightarrow> pystr option" where
  "match_literal l s = (if prefix l s then Some (drop (length l) s) else None)"

definition match_newline :: "pystr \<Rightarrow> pystr option" where
  "match_newline s = expect (\<lambda>c. c = 10) (optional (\<lambda>c. c = 13) s)"

definition match_close :: "pystr \<Rightarrow> pystr option" where
  "match_close s =
     Option.bind (match_newline s) (\<lambda>s1.
     Option.bind (match_literal (lit ''---'') s1) match_newline)"

fun find_close :: "pystr \<Rightarrow> (pystr \<times> pystr) option" where
  "find_close [] = None"
| "find_close (c # cs) =
     (case match_close (c # cs) of
        Some rest \<Rightarrow> Some ([], rest)
      | None \<Rightarrow> map_option (\<lambda>(g1, g2). (c # g1, g2)) (find_close cs))"

definition match_front_matter :: "pystr \<Rightarrow> (pystr \<times> pystr) option" where
  "match_front_matter text =
     Option.bind (match_literal (lit ''---'') text) (\<lambda>s1.
     Option.bind (match_newline s1) find_close)"

subsection \<open>Normalising and writing\<close>

definition normalize_file ::
  "('z pylib_scheme) \<Rightarrow> filesystem \<Rightarrow> pystr \<Rightarrow> episode \<Rightarrow> (filesystem \<times> bool) outcome" where
  "normalize_file L fs md_path fm =
     (case read_text fs md_path of
        Raises \<Rightarrow> Raises
      | Returns text \<Rightarrow>
          (case match_front_matter text of
             None \<Rightarrow>
               (let old = strip text;
                    new = render_front_matter fm @ standard_body L fm;
                    new = (if old \<noteq> []
                           then new @ [10] @ lit ''---'' @ [10] @
                                lit ''<!-- Tidligere innhold bevart under -->'' @ [10] @ old @ [10]
                           else new)
                in Returns (write_text fs md_path new, True))
           | Some (g1, g2) \<Rightarrow>
               (let body = strip g2;
                    new_fm = render_front_matter fm;
                    body = (if body = [] \<or> \<not> contains (lit ''episodeplayer'') body
                            then standard_body L fm else body);
                    new = new_fm @ body @ (if \<not> endswith body [10] then [10] else [])
                in if new \<noteq> text then Returns (write_text fs md_path new, True)
                   else Returns (fs, False))))"

text \<open>
  \<open>CONTENT_ROOT / slug / "index.md"\<close>. The writer makes the directory of the
  slug first, and raises when that fails.
\<close>

definition md_path_of :: "pystr \<Rightarrow> pystr" where
  "md_path_of slug = lit ''content/lytteovelser/'' @ slug @ lit ''/index.md''"

definition write_or_update_episode_file ::
  "('z pylib_scheme) \<Rightarrow> filesystem \<Rightarrow> episode \<Rightarrow> pystr \<Rightarrow> (filesystem \<times> bool) outcome" where
  "write_or_update_episode_file L fs fm slug =
     (if \<not> mkdir_ok L slug then Raises
      else let md_path = md_path_of slug in
           if files fs md_path \<noteq> None then normalize_file L fs md_path fm
           else let new = render_front_matter fm @ standard_body L fm
                in Returns (write_text fs md_path new, True))"

section \<open>The state store and the run\<close>

text \<open>
  The state file is absent, is not readable as JSON, or holds a JSON value, whatever
  it is. \<open>load_state\<close> returns that value, and \<open>{"seen": []}\<close> in the two other
  cases.
\<close>

datatype state_file = Absent | Unparsable | Parsed json

definition load_state :: "state_file \<Rightarrow> json" where
  "load_state sf = (case sf of Parsed v \<Rightarrow> v | _ \<Rightarrow> JObj [(lit ''seen'', JList [])])"

text \<open>
  \<open>set(x)\<close>: a list gives the set of its items and raises \<open>TypeError\<close> when one of
  them is a list or a dictionary, which cannot be hashed; a string gives its
  characters, a dictionary its keys; nothing else can be iterated.
\<close>

definition hashable :: "json \<Rightarrow> bool" where
  "hashable v = (case v of JList xs \<Rightarrow> False | JObj kvs \<Rightarrow> False | _ \<Rightarrow> True)"

definition py_set :: "json \<Rightarrow> json set outcome" where
  "py_set v =
     (case v of
        JList xs \<Rightarrow> if list_all hashable xs then Returns (set xs) else Raises
      | JStr s \<Rightarrow> Returns (set (map (\<lambda>c. JStr [c]) s))
      | JObj kvs \<Rightarrow> Returns (set (map (\<lambda>kv. JStr (fst kv)) kvs))
      | _ \<Rightarrow> Raises)"

text \<open>
  \<open>set(state.get("seen", []))\<close>: only a dictionary has \<open>get\<close>, every other value
  raises \<open>AttributeError\<close>.
\<close>

definition initial_seen :: "json \<Rightarrow> json set outcome" where
  "initial_seen state =
     (case state of
        JObj kvs \<Rightarrow> py_set (case map_of kvs (lit ''seen'') of Some v \<Rightarrow> v | None \<Rightarrow> JList [])
      | _ \<Rightarrow> Raises)"

text \<open>\<open>state[key] = v\<close> on a dictionary.\<close>

fun put_member :: "(pystr \<times> json) list \<Rightarrow> pystr \<Rightarrow> json \<Rightarrow> (pystr \<times> json) list" where
  "put_member [] key v = [(key, v)]"
| "put_member (kv # kvs) key v =
     (if fst kv = key then (key, v) # kvs else kv # put_member kvs key v)"

definition dict_set :: "json \<Rightarrow> pystr \<Rightarrow> json \<Rightarrow> json" where
  "dict_set state key v = (case state of JObj kvs \<Rightarrow> JObj (put_member kvs key v) | _ \<Rightarrow> state)"

text \<open>
  \<open>save_state\<close> serialises the state and writes it as UTF-8. A string with a
  surrogate code point, which an escape such as \<open>\ud800\<close> in the state file brings
  in, cannot be encoded: the call raises \<open>UnicodeEncodeError\<close> when the file has
  been opened for writing, and leaves it empty.
\<close>

definition encodable :: "pystr \<Rightarrow> bool" where
  "encodable s = list_all (\<lambda>c. \<not> (55296 \<le> c \<and> c \<le> 57343)) s"

fun encodable_json :: "json \<Rightarrow> bool" where
  "encodable_json (JStr s) = encodable s"
| "encodable_json (JList xs) = list_all encodable_json xs"
| "encodable_json (JObj kvs) =
     (list_all encodable (map fst kvs) \<and> list_all encodable_json (map snd kvs))"
| "encodable_json v = True"

definition save_state :: "json \<Rightarrow> json outcome" where
  "save_state state = (if encodable_json state then Returns state else Raises)"

text \<open>
  The loop of \<open>main\<close> over the items of the channel, on the files, the set \<open>seen\<close>
  and the counter \<open>changed\<close>. When a step raises, the loop ends with the files as
  they are then (\<open>Inl\<close>).
\<close>

fun process_items ::
  "('z pylib_scheme) \<Rightarrow> feed_item list \<Rightarrow> filesystem \<times> json set \<times> nat \<Rightarrow>
     filesystem + (filesystem \<times> json set \<times> nat)" where
  "process_items L [] acc = Inr acc"
| "process_items L (item # items) (fs, seen_set, changed) =
     (let guid = (if text_or (guid_elem item) \<noteq> [] then text_or (guid_elem item)
                  else text_or (link_elem item))
      in if guid = [] then process_items L items (fs, seen_set, changed)
         else case build_front_matter L item of
                Raises \<Rightarrow> Inl fs
              | Returns fm \<Rightarrow>
                  (let slug = date fm @ lit ''-'' @ slugify L (title fm) in
                   case write_or_update_episode_file L fs fm slug of
                     Raises \<Rightarrow> Inl fs
                   | Returns (fs1, updated) \<Rightarrow>
                       process_items L items
                         (fs1,
                          (if JStr guid \<notin> seen_set then insert (JStr guid) seen_set
                           else seen_set),
                          (if updated then changed + 1 else changed))))"

text \<open>
  The feed: fetching it or parsing it raises, or there is a root element, with
  \<open>root.find("channel")\<close> the list of the items of its channel when it has one.
  (\<open>ensure_dirs\<close>, the first call of \<open>main\<close>, touches no file; a run in which it
  raises ends as one that cannot fetch the feed.)

  How a run ends: with \<open>sys.exit(1)\<close> before any file is written; with an exception
  that nothing catches, the content files as they are then and the state file kept or
  emptied; or with the content files, the state that \<open>save_state\<close> has persisted
  and the number of files changed.
\<close>

datatype feed = Unavailable | Root "feed_item list option"

datatype state_file_left = Kept | Emptied

datatype run_result =
  Exit1 | Raised filesystem state_file_left | Finished filesystem json nat

definition main ::
  "('z pylib_scheme) \<Rightarrow> filesystem \<Rightarrow> state_file \<Rightarrow> feed \<Rightarrow> run_result" where
  "main L fs sf fd =
     (let state = load_state sf in
      case initial_seen state of
        Raises \<Rightarrow> Raised fs Kept
      | Returns seen_set \<Rightarrow>
          (case fd of
             Unavailable \<Rightarrow> Raised fs Kept
           | Root None \<Rightarrow> Exit1
           | Root (Some items) \<Rightarrow>
               (case process_items L items (fs, seen_set, 0) of
                  Inl fs1 \<Rightarrow> Raised fs1 Kept
                | Inr (fs1, seen1, changed) \<Rightarrow>
                    (case py_sorted L seen1 of
                       Raises \<Rightarrow> Raised fs1 Kept
                     | Returns l \<Rightarrow>
                         (case save_state (dict_set state (lit ''seen'') (JList l)) of
                            Raises \<Rightarrow> Raised fs1 Emptied
                          | Returns st \<Rightarrow> Finished fs1 st changed)))))"

section \<open>A library to run the script on\<close>

text \<open>
  To evaluate the script at given inputs, a library that does on ASCII text what
  Python's does: \<open>str.lower\<close>, \<open>\d\<close>, and \<open>strptime\<close> with the format of the
  script in the C locale. On other text Python's library does more than this one (it
  reads every Unicode decimal digit, where \<open>strptime_c\<close> raises), so nothing below
  takes the two for equal: the sample is evaluated at ASCII inputs, and the properties
  are stated over any library. The format compiles to the pattern
  \<^verbatim>\<open>(?P<a>mon|...|sun),\s+(?P<d>3[0-1]|[1-2]\d|0[1-9]|[1-9]| [1-9])\s+(?P<b>jan|...|dec)\s+\<close>
  \<^verbatim>\<open>(?P<Y>\d\d\d\d)\s+(?P<H>2[0-3]|[0-1]\d|\d):(?P<M>[0-5]\d|\d):(?P<S>6[0-1]|[0-5]\d|\d)\s+\<close>
  \<^verbatim>\<open>(?P<z>[+-]\d\d:?[0-5]\d(:?[0-5]\d(\.\d{1,6})?)?|(?-i:Z))\<close>,
  matched without regard to case; the whole string must be consumed, the colons of
  the offset must agree, the offset must be below 24 hours, and the fields must form
  a date and a time. The name of the weekday is not compared with the date.
\<close>

definition ascii_lower :: "cp \<Rightarrow> cp" where
  "ascii_lower c = (if 65 \<le> c \<and> c \<le> 90 then c + 32 else c)"

definition between :: "cp \<Rightarrow> cp \<Rightarrow> cp \<Rightarrow> bool" where
  "between lo hi c \<longleftrightarrow> lo \<le> c \<and> c \<le> hi"

definition ascii_digit :: "cp \<Rightarrow> bool" where
  "ascii_digit = between 48 57"

definition digit_value :: "cp \<Rightarrow> nat" where
  "digit_value c = nat (c - 48)"

definition first_of :: "'a option \<Rightarrow> 'a option \<Rightarrow> 'a option" where
  "first_of a b = (case a of Some x \<Rightarrow> Some x | None \<Rightarrow> b)"

definition one_digit :: "(cp \<Rightarrow> bool) \<Rightarrow> pystr \<Rightarrow> (nat \<times> pystr) option" where
  "one_digit P s = (case s of a # r \<Rightarrow> if P a then Some (digit_value a, r) else None | _ \<Rightarrow> None)"

definition two_digits ::
  "(cp \<Rightarrow> bool) \<Rightarrow> (cp \<Rightarrow> bool) \<Rightarrow> pystr \<Rightarrow> (nat \<times> pystr) option" where
  "two_digits P Q s =
     (case s of a # b # r \<Rightarrow>
        if P a \<and> Q b then Some (10 * digit_value a + digit_value b, r) else None
      | _ \<Rightarrow> None)"

fun match_name :: "pystr list \<Rightarrow> nat \<Rightarrow> pystr \<Rightarrow> (nat \<times> pystr) option" where
  "match_name [] i s = None"
| "match_name (n # ns) i s =
     (if length n \<le> length s \<and> map ascii_lower (take (length n) s) = n
      then Some (i, drop (length n) s) else match_name ns (Suc i) s)"

definition match_spaces :: "pystr \<Rightarrow> pystr option" where
  "match_spaces s = (case s of [] \<Rightarrow> None
                     | c # cs \<Rightarrow> if isspace c then Some (dropWhile isspace cs) else None)"

definition match_a :: "pystr \<Rightarrow> (nat \<times> pystr) option" where
  "match_a = match_name [lit ''mon'', lit ''tue'', lit ''wed'', lit ''thu'', lit ''fri'',
                         lit ''sat'', lit ''sun''] 0"

definition match_b :: "pystr \<Rightarrow> (nat \<times> pystr) option" where
  "match_b = match_name [lit ''jan'', lit ''feb'', lit ''mar'', lit ''apr'', lit ''may'',
                         lit ''jun'', lit ''jul'', lit ''aug'', lit ''sep'', lit ''oct'',
                         lit ''nov'', lit ''dec''] 1"

definition match_d :: "pystr \<Rightarrow> (nat \<times> pystr) option" where
  "match_d s =
     first_of (two_digits (between 51 51) (between 48 49) s)
    (first_of (two_digits (between 49 50) ascii_digit s)
    (first_of (two_digits (between 48 48) (between 49 57) s)
    (first_of (one_digit (between 49 57) s)
       (Option.bind (expect (\<lambda>c. c = 32) s) (one_digit (between 49 57))))))"

definition match_Y :: "pystr \<Rightarrow> (nat \<times> pystr) option" where
  "match_Y s =
     Option.bind (two_digits ascii_digit ascii_digit s) (\<lambda>(hi, s1).
     Option.bind (two_digits ascii_digit ascii_digit s1) (\<lambda>(lo, s2).
     Some (100 * hi + lo, s2)))"

definition match_H :: "pystr \<Rightarrow> (nat \<times> pystr) option" where
  "match_H s =
     first_of (two_digits (between 50 50) (between 48 51) s)
    (first_of (two_digits (between 48 49) ascii_digit s)
       (one_digit ascii_digit s))"

definition match_M :: "pystr \<Rightarrow> (nat \<times> pystr) option" where
  "match_M s = first_of (two_digits (between 48 53) ascii_digit s) (one_digit ascii_digit s)"

definition match_S :: "pystr \<Rightarrow> (nat \<times> pystr) option" where
  "match_S s =
     first_of (two_digits (between 54 54) (between 48 49) s)
    (first_of (two_digits (between 48 53) ascii_digit s)
       (one_digit ascii_digit s))"

text \<open>
  The offset: whether it is one \<open>strptime\<close> accepts (the hours below 24, the colons
  in agreement), and what follows it.
\<close>

definition match_fraction :: "pystr \<Rightarrow> pystr" where
  "match_fraction s =
     (case s of c # d # r \<Rightarrow>
        if c = 46 \<and> ascii_digit d then drop (length (takeWhile ascii_digit (take 6 (d # r)))) (d # r)
        else s
      | _ \<Rightarrow> s)"

definition match_z :: "pystr \<Rightarrow> (bool \<times> pystr) option" where
  "match_z s =
     first_of
       (Option.bind (expect (\<lambda>c. c = 43 \<or> c = 45) s) (\<lambda>s1.
        Option.bind (two_digits ascii_digit ascii_digit s1) (\<lambda>(hh, s2).
        let colon1 = (s2 \<noteq> optional (\<lambda>c. c = 58) s2) in
        Option.bind (two_digits (between 48 53) ascii_digit (optional (\<lambda>c. c = 58) s2)) (\<lambda>(mm, s3).
        let colon2 = (s3 \<noteq> optional (\<lambda>c. c = 58) s3) in
        case two_digits (between 48 53) ascii_digit (optional (\<lambda>c. c = 58) s3) of
          None \<Rightarrow> Some (hh < 24, s3)
        | Some (ss, s4) \<Rightarrow> Some (hh < 24 \<and> colon1 = colon2, match_fraction s4)))))
       (Option.bind (expect (\<lambda>c. c = 90) s) (\<lambda>s1. Some (True, s1)))"

definition days_in_month :: "nat \<Rightarrow> nat \<Rightarrow> nat" where
  "days_in_month y m =
     (if m = 2 then (if y mod 4 = 0 \<and> (y mod 100 \<noteq> 0 \<or> y mod 400 = 0) then 29 else 28)
      else if m = 4 \<or> m = 6 \<or> m = 9 \<or> m = 11 then 30 else 31)"

definition strptime_c :: "pystr \<Rightarrow> date outcome" where
  "strptime_c s =
     (case
        Option.bind (match_a s) (\<lambda>(a, s).
        Option.bind (expect (\<lambda>c. c = 44) s) (\<lambda>s.
        Option.bind (match_spaces s) (\<lambda>s.
        Option.bind (match_d s) (\<lambda>(d, s).
        Option.bind (match_spaces s) (\<lambda>s.
        Option.bind (match_b s) (\<lambda>(b, s).
        Option.bind (match_spaces s) (\<lambda>s.
        Option.bind (match_Y s) (\<lambda>(y, s).
        Option.bind (match_spaces s) (\<lambda>s.
        Option.bind (match_H s) (\<lambda>(H, s).
        Option.bind (expect (\<lambda>c. c = 58) s) (\<lambda>s.
        Option.bind (match_M s) (\<lambda>(M, s).
        Option.bind (expect (\<lambda>c. c = 58) s) (\<lambda>s.
        Option.bind (match_S s) (\<lambda>(S, s).
        Option.bind (match_spaces s) (\<lambda>s.
        Option.bind (match_z s) (\<lambda>(z_ok, s).
        if s = [] \<and> z_ok \<and> 1 \<le> y \<and> d \<le> days_in_month y b \<and> S \<le> 59
        then Some \<lparr>year = y, month = b, day = d\<rparr> else None))))))))))))))))
      of Some dt \<Rightarrow> Returns dt | None \<Rightarrow> Raises)"

text \<open>
  \<open>sorted\<close> on a set of strings gives them in the order of their code points, and
  raises on a set that holds a string and a value of another type. (On a set without
  strings this sample raises as well; Python orders numbers.)
\<close>

definition is_str :: "json \<Rightarrow> bool" where
  "is_str v = (case v of JStr s \<Rightarrow> True | _ \<Rightarrow> False)"

definition str_of :: "json \<Rightarrow> pystr" where
  "str_of v = (case v of JStr s \<Rightarrow> s | _ \<Rightarrow> [])"

definition sorted_strings :: "json set \<Rightarrow> json list outcome" where
  "sorted_strings S =
     (if Ball S is_str then Returns (map JStr (sorted_list_of_set (str_of ` S))) else Raises)"

text \<open>
  In the sample library \<open>html.unescape\<close> is the identity, as it is on text without
  \<open>&\<close>, and \<open>fromisoformat\<close> raises, as it does on text that is no ISO-8601 date;
  the clock shows 3 November 2026, and a directory can be made when the slug, which is
  ASCII, has at most 255 characters.
\<close>

definition sample_library :: pylib where
  "sample_library =
     \<lparr>str_lower = map ascii_lower, re_digit = ascii_digit, html_unescape = (\<lambda>s. s),
      strptime_rfc822 = strptime_c, fromisoformat = (\<lambda>s. Raises),
      utc_today = \<lparr>year = 2026, month = 11, day = 3\<rparr>,
      py_sorted = sorted_strings, mkdir_ok = (\<lambda>slug. length slug \<le> 255)\<rparr>"

section \<open>Notions the properties are stated with\<close>

text \<open>
  The text \<open>slugify\<close> hands to its two regular expressions: trimmed, in lower case,
  the three Norwegian letters replaced.
\<close>

definition pre_slug :: "('z pylib_scheme) \<Rightarrow> pystr \<Rightarrow> pystr" where
  "pre_slug L x =
     replace 229 (lit ''a'') (replace 248 (lit ''o'') (replace 230 (lit ''ae'')
       (str_lower L (strip x))))"

text \<open>
  A slug: not empty, made of \<open>[a-z0-9]\<close> and hyphens, no hyphen at either end and
  no two hyphens in a row.
\<close>

definition slug_char :: "cp \<Rightarrow> bool" where
  "slug_char c \<longleftrightarrow> slug_alnum c \<or> c = 45"

fun single_hyphens :: "pystr \<Rightarrow> bool" where
  "single_hyphens (a # b # cs) = (\<not> (a = 45 \<and> b = 45) \<and> single_hyphens (b # cs))"
| "single_hyphens _ = True"

definition slug_shaped :: "pystr \<Rightarrow> bool" where
  "slug_shaped s \<longleftrightarrow>
     s \<noteq> [] \<and> list_all slug_char s \<and> hd s \<noteq> 45 \<and> last s \<noteq> 45 \<and> single_hyphens s"

text \<open>
  The identifier \<open>main\<close> records for an item: \<open>text_or(guid) or text_or(link)\<close>.
  An item whose identifier is empty is skipped; \<open>identifiers\<close> lists those of the
  items that are processed.
\<close>

definition item_identifier :: "feed_item \<Rightarrow> pystr" where
  "item_identifier item =
     (if text_or (guid_elem item) \<noteq> [] then text_or (guid_elem item)
      else text_or (link_elem item))"





text \<open>
  Of a run: the content files it leaves (those it started with when it exits before
  the loop), the files the loop leaves, and the state it has persisted, if any.
\<close>

definition content_files :: "filesystem \<Rightarrow> run_result \<Rightarrow> filesystem" where
  "content_files fs r =
     (case r of Exit1 \<Rightarrow> fs | Raised fs1 left \<Rightarrow> fs1 | Finished fs1 st n \<Rightarrow> fs1)"

definition loop_files :: "filesystem + (filesystem \<times> json set \<times> nat) \<Rightarrow> filesystem" where
  "loop_files r = (case r of Inl fs1 \<Rightarrow> fs1 | Inr (fs1, S, n) \<Rightarrow> fs1)"



text \<open>
  Of a call of the writer: what a file holds after it, what it reports, and the writer
  run a second time on the files the first run left.
\<close>

definition content_of :: "(filesystem \<times> bool) outcome \<Rightarrow> pystr \<Rightarrow> pystr option" where
  "content_of r path = (case r of Raises \<Rightarrow> None | Returns (fs, changed) \<Rightarrow> files fs path)"

definition reported :: "(filesystem \<times> bool) outcome \<Rightarrow> bool outcome" where
  "reported r = map_outcome snd r"

definition rerun ::
  "('z pylib_scheme) \<Rightarrow> filesystem \<Rightarrow> episode \<Rightarrow> pystr \<Rightarrow> (filesystem \<times> bool) outcome" where
  "rerun L fs fm slug =
     (case write_or_update_episode_file L fs fm slug of
        Raises \<Rightarrow> Raises
      | Returns (fs1, changed) \<Rightarrow> write_or_update_episode_file L fs1 fm slug)"

section \<open>Sample inputs\<close>

definition no_files :: filesystem where
  "no_files = \<lparr>files = Map.empty, writes = []\<rparr>"

definition one_file :: "pystr \<Rightarrow> pystr \<Rightarrow> filesystem" where
  "one_file path stored = \<lparr>files = [path \<mapsto> stored], writes = []\<rparr>"

definition sample_item :: feed_item where
  "sample_item =
     \<lparr>title_elem = Some (Some (lit ''Episode 1'')),
      pubDate_elem = Some (Some (lit ''Mon, 02 Jan 2024 10:00:00 +0000'')),
      description_elem = Some (Some (lit ''<p>Hello</p><p>World</p>'')),
      link_elem = Some (Some (lit ''https://x/lytte/12345'')),
      guid_elem = Some (Some (lit ''guid-1'')),
      enclosure_url = Some (Some (lit ''https://x/a.mp3''))\<rparr>"

text \<open>An item whose title holds a double quote.\<close>

definition quoted_item :: feed_item where
  \<open>quoted_item = sample_item\<lparr>title_elem := Some (Some (lit ''a"b''))\<rparr>\<close>

text \<open>An item whose link ends with a slash.\<close>

definition slashed_item :: feed_item where
  "slashed_item = sample_item\<lparr>link_elem := Some (Some (lit ''https://x/lytte/12345/''))\<rparr>"

text \<open>An item with a guid and no link, and the record the transformer makes of it.\<close>

definition linkless_item :: feed_item where
  "linkless_item =
     \<lparr>title_elem = Some (Some (lit ''Episode 1'')),
      pubDate_elem = Some (Some (lit ''Mon, 02 Jan 2024 10:00:00 +0000'')),
      description_elem = None, link_elem = None,
      guid_elem = Some (Some (lit ''guid-2'')), enclosure_url = None\<rparr>"

definition linkless_episode :: episode where
  "linkless_episode =
     \<lparr>title = lit ''Episode 1'', date = lit ''2024-01-02'', display_date = lit ''02-01-2024'',
      description = [], rss_embed = [], audio_url = [], link = [],
      tags = [lit ''lytte'' @ [248] @ lit ''velser'', lit ''podcast''], draft = False\<rparr>"

definition linkless_path :: pystr where
  "linkless_path = md_path_of (lit ''2024-01-02-episode-1'')"

text \<open>
  The same item with a title of three lines, \<open>Del 1\<close>, \<open>---\<close> and
  \<open>draft: true\<close>, and its record.
\<close>

definition newline_item :: feed_item where
  "newline_item =
     linkless_item\<lparr>title_elem := Some (Some (lit ''Del 1'' @ [10] @ lit ''---'' @ [10] @ lit ''draft: true''))\<rparr>"

definition newline_episode :: episode where
  "newline_episode =
     linkless_episode\<lparr>title := lit ''Del 1'' @ [10] @ lit ''---'' @ [10] @ lit ''draft: true''\<rparr>"

text \<open>
  A file with front matter whose body holds the player marker between a blank line
  before it and a blank line at its end; and a legacy file without front matter, an
  indented line.
\<close>

definition padded_body :: pystr where
  "padded_body = [10] @ lit ''{{< episodeplayer >}}'' @ [10, 10] @ lit ''Mine notater'' @ [10, 10]"

definition padded_file :: pystr where
  "padded_file = lit ''---'' @ [10] @ lit ''title: x'' @ [10] @ lit ''---'' @ [10] @ padded_body"

definition indented_legacy :: pystr where
  "indented_legacy = lit ''    Gammelt innhold'' @ [10]"

text \<open>
  State files: \<open>{"seen": ["zeta", "alfa"]}\<close>, \<open>{"seen": []}\<close>,
  \<open>{"seen": [3]}\<close> and \<open>{"seen": [["x"]]}\<close>.
\<close>

definition sample_state :: state_file where
  "sample_state = Parsed (JObj [(lit ''seen'', JList [JStr (lit ''zeta''), JStr (lit ''alfa'')])])"

definition empty_state :: state_file where
  "empty_state = Parsed (JObj [(lit ''seen'', JList [])])"


definition nested_state :: state_file where
  "nested_state = Parsed (JObj [(lit ''seen'', JList [JList [JStr (lit ''x'')]])])"

text \<open>
  An item whose title has 250 letters, too long a name for a directory; and the state
  file \<open>{"seen": ["\ud800"]}\<close>, a string of one surrogate.
\<close>

definition long_item :: feed_item where
  "long_item = linkless_item\<lparr>title_elem := Some (Some (replicate 250 97))\<rparr>"

definition surrogate_state :: state_file where
  "surrogate_state = Parsed (JObj [(lit ''seen'', JList [JStr [55296]])])"

section \<open>Properties of slugify\<close>

lemma slug_alnum_not_hyphen [simp]: "\<not> slug_alnum 45"
  by (simp add: slug_alnum_def)

lemma slug_alnum_not_space: "slug_alnum c \<Longrightarrow> \<not> isspace c"
  by (auto simp: slug_alnum_def isspace_def)

lemma single_hyphens_Cons:
  "single_hyphens (a # l) \<longleftrightarrow> (l = [] \<or> \<not> (a = 45 \<and> hd l = 45)) \<and> single_hyphens l"
  by (cases l) auto

lemma single_hyphens_append:
  "single_hyphens (xs @ ys) \<Longrightarrow> single_hyphens xs \<and> single_hyphens ys"
  by (induction xs rule: single_hyphens.induct) (auto simp: single_hyphens_Cons)

text \<open>The first substitution leaves slug characters only, and no two hyphens in a row.\<close>

lemma sub_nonalnum_chars: "list_all slug_char (sub_nonalnum s)"
  by (induction s rule: sub_nonalnum.induct) (auto simp: slug_char_def)

lemma sub_nonalnum_hd_alnum:
  "t = [] \<or> slug_alnum (hd t) \<Longrightarrow> sub_nonalnum t = [] \<or> hd (sub_nonalnum t) \<noteq> 45"
  by (cases t) auto

lemma sub_nonalnum_single: "single_hyphens (sub_nonalnum s)"
proof (induction s rule: sub_nonalnum.induct)
  case 1
  then show ?case by simp
next
  case (2 c cs)
  show ?case
  proof (cases "slug_alnum c")
    case True
    with 2 show ?thesis by (auto simp: single_hyphens_Cons)
  next
    case False
    let ?r = "dropWhile (\<lambda>x. \<not> slug_alnum x) cs"
    have "?r = [] \<or> slug_alnum (hd ?r)"
      using hd_dropWhile [of "\<lambda>x. \<not> slug_alnum x" cs] by auto
    then have "sub_nonalnum ?r = [] \<or> hd (sub_nonalnum ?r) \<noteq> 45"
      by (rule sub_nonalnum_hd_alnum)
    with 2 False show ?thesis by (auto simp: single_hyphens_Cons)
  qed
qed

lemma sub_nonalnum_none:
  assumes "\<not> list_ex slug_alnum s"
  shows "sub_nonalnum s = (if s = [] then [] else [45])"
proof (cases s)
  case Nil
  then show ?thesis by simp
next
  case (Cons c cs)
  with assms have "\<not> slug_alnum c" and "dropWhile (\<lambda>x. \<not> slug_alnum x) cs = []"
    by (simp_all add: list_ex_iff)
  with Cons show ?thesis by (simp del: dropWhile_eq_Nil_conv)
qed

text \<open>On such a text the other steps change nothing.\<close>

lemma sub_hyphens_id: "single_hyphens s \<Longrightarrow> sub_hyphens s = s"
  by (induction s rule: single_hyphens.induct) auto

lemma sub_nonalnum_id: "list_all slug_char s \<Longrightarrow> single_hyphens s \<Longrightarrow> sub_nonalnum s = s"
proof (induction s rule: single_hyphens.induct)
  case (1 a b cs)
  then show ?case by (cases "slug_alnum b") (auto simp: slug_char_def)
qed (auto simp: slug_char_def)

lemma replace_id: "old \<notin> set s \<Longrightarrow> replace old new s = s"
  by (induction s) (auto simp: replace_def)

text \<open>Trimming at both ends: what is left is a segment with clean ends.\<close>

lemma trim_both_id:
  assumes "s \<noteq> []" "\<not> P (hd s)" "\<not> P (last s)"
  shows "rev (dropWhile P (rev (dropWhile P s))) = s"
proof -
  have "dropWhile P s = s" using assms by (simp add: dropWhile_eq_self_iff)
  moreover have "dropWhile P (rev s) = rev s"
    using assms by (simp add: dropWhile_eq_self_iff hd_rev)
  ultimately show ?thesis by simp
qed

lemma trim_both_decomp: "\<exists>p q. s = p @ rev (dropWhile P (rev (dropWhile P s))) @ q"
proof -
  let ?t = "dropWhile P s"
  have "rev ?t = takeWhile P (rev ?t) @ dropWhile P (rev ?t)" by simp
  then have "?t = rev (dropWhile P (rev ?t)) @ rev (takeWhile P (rev ?t))"
    by (metis rev_append rev_rev_ident)
  moreover have "s = takeWhile P s @ ?t" by simp
  ultimately show ?thesis by metis
qed

lemma trim_both_ends:
  assumes "rev (dropWhile P (rev (dropWhile P s))) \<noteq> []"
  shows "\<not> P (hd (rev (dropWhile P (rev (dropWhile P s))))) \<and>
         \<not> P (last (rev (dropWhile P (rev (dropWhile P s)))))"
proof -
  let ?t = "dropWhile P s"
  let ?u = "dropWhile P (rev ?t)"
  from assms have u: "?u \<noteq> []" by simp
  then have t: "?t \<noteq> []" by (metis dropWhile.simps(1) rev.simps(1))
  have "\<not> P (hd ?u)" using u by (rule hd_dropWhile)
  then have l: "\<not> P (last (rev ?u))" using u by (simp add: last_rev)
  have "rev ?t = takeWhile P (rev ?t) @ ?u" by simp
  then have "?t = rev ?u @ rev (takeWhile P (rev ?t))" by (metis rev_append rev_rev_ident)
  then have "hd ?t = hd (rev ?u)" using u by (metis hd_append2 rev_is_Nil_conv)
  moreover have "\<not> P (hd ?t)" using t by (rule hd_dropWhile)
  ultimately show ?thesis using l by simp
qed

lemma strip_id: "s \<noteq> [] \<Longrightarrow> \<not> isspace (hd s) \<Longrightarrow> \<not> isspace (last s) \<Longrightarrow> strip s = s"
  by (simp add: strip_def lstrip_def rstrip_def trim_both_id)

lemma strip_of_id:
  "s \<noteq> [] \<Longrightarrow> hd s \<notin> set chars \<Longrightarrow> last s \<notin> set chars \<Longrightarrow> strip_of chars s = s"
  by (simp add: strip_of_def trim_both_id)

lemma list_all_strip_of: "list_all P s \<Longrightarrow> list_all P (strip_of chars s)"
  using trim_both_decomp [of s "\<lambda>c. c \<in> set chars"] unfolding strip_of_def
  by (metis list_all_append)

lemma single_hyphens_strip_of: "single_hyphens s \<Longrightarrow> single_hyphens (strip_of chars s)"
  using trim_both_decomp [of s "\<lambda>c. c \<in> set chars"] unfolding strip_of_def
  by (metis single_hyphens_append)

lemma slugify_pre_slug:
  "slugify L x =
     (if strip_of (lit ''-'') (sub_hyphens (sub_nonalnum (pre_slug L x))) = [] then lit ''episode''
      else strip_of (lit ''-'') (sub_hyphens (sub_nonalnum (pre_slug L x))))"
  by (simp add: slugify_def pre_slug_def Let_def)

lemma episode_shaped: "slug_shaped (lit ''episode'')"
  by (simp add: slug_shaped_def lit_def slug_char_def slug_alnum_def)

lemma slugify_shaped: "slug_shaped (slugify L x)"
proof -
  define t where "t = sub_nonalnum (pre_slug L x)"
  define r where "r = strip_of (lit ''-'') (sub_hyphens t)"
  have t1: "list_all slug_char t" and t2: "single_hyphens t"
    by (simp_all add: t_def sub_nonalnum_chars sub_nonalnum_single)
  then have st: "sub_hyphens t = t" by (simp add: sub_hyphens_id)
  have r1: "list_all slug_char r" and r2: "single_hyphens r"
    using t1 t2 by (simp_all add: r_def st list_all_strip_of single_hyphens_strip_of)
  have r3: "r \<noteq> [] \<Longrightarrow> hd r \<noteq> 45 \<and> last r \<noteq> 45"
    using trim_both_ends [of "\<lambda>c. c \<in> set (lit ''-'')" "sub_hyphens t"]
    by (auto simp: r_def strip_of_def lit_def)
  have "slugify L x = (if r = [] then lit ''episode'' else r)"
    by (simp add: slugify_pre_slug r_def t_def)
  then show ?thesis
    using r1 r2 r3 episode_shaped by (auto simp: slug_shaped_def)
qed

lemma slugify_fixes_shaped:
  assumes lower: "\<And>s. list_all slug_char s \<Longrightarrow> str_lower L s = s" and s: "slug_shaped s"
  shows "slugify L s = s"
proof -
  from s have ne: "s \<noteq> []" and chars: "list_all slug_char s" and h: "hd s \<noteq> 45"
    and l: "last s \<noteq> 45" and single: "single_hyphens s"
    by (simp_all add: slug_shaped_def)
  have "hd s \<in> set s" "last s \<in> set s" using ne by simp_all
  with chars h l have "slug_alnum (hd s)" "slug_alnum (last s)"
    by (auto simp: list_all_iff slug_char_def)
  then have 1: "strip s = s" using ne by (simp add: strip_id slug_alnum_not_space)
  have 2: "str_lower L s = s" using chars by (rule lower)
  have "229 \<notin> set s" "248 \<notin> set s" "230 \<notin> set s"
    using chars by (auto simp: list_all_iff slug_char_def slug_alnum_def)
  then have 3: "pre_slug L s = s"
    by (simp add: pre_slug_def 1 2 replace_id)
  have 4: "sub_nonalnum s = s" using chars single by (rule sub_nonalnum_id)
  have 5: "sub_hyphens s = s" using single by (rule sub_hyphens_id)
  have 6: "strip_of (lit ''-'') s = s" using ne h l by (simp add: strip_of_id lit_def)
  show ?thesis using ne by (simp add: slugify_pre_slug 3 4 5 6)
qed

lemma sample_lower_fixes: "list_all slug_char s \<Longrightarrow> str_lower sample_library s = s"
  by (induction s) (auto simp: sample_library_def slug_char_def slug_alnum_def ascii_lower_def)

text \<open>
  C7. Slugify is idempotent: \<open>slugify(slugify(x)) = slugify(x)\<close> for every string
  \<open>x\<close>, over every library whose \<open>str.lower\<close> leaves a text of lower-case ASCII
  letters, digits and hyphens as it is (Python's does).
\<close>

theorem slugify_idempotent:
  assumes "\<And>s. list_all slug_char s \<Longrightarrow> str_lower L s = s"
  shows "slugify L (slugify L x) = slugify L x"
  using assms slugify_shaped by (rule slugify_fixes_shaped)

theorem slugify_idempotent_witness:
  "slugify sample_library (slugify sample_library (lit ''  Hei, verden -- 12 ''))
     = lit ''hei-verden-12''"
proof -
  have "slugify sample_library (lit ''  Hei, verden -- 12 '') = lit ''hei-verden-12''"
    by code_simp
  then show ?thesis
    using slugify_idempotent [of sample_library "lit ''  Hei, verden -- 12 ''",
        OF sample_lower_fixes]
    by simp
qed

text \<open>
  C8. Slugify never returns the empty string, and an input in which nothing maps to a
  letter or digit of \<open>[a-z0-9]\<close> (none is left after trimming, lower-casing and
  replacing the three letters) yields the fallback \<open>episode\<close>.
\<close>

theorem slugify_nonempty:
  "slugify L x \<noteq> [] \<and>
   (\<not> list_ex slug_alnum (pre_slug L x) \<longrightarrow> slugify L x = lit ''episode'')"
proof -
  have "slugify L x \<noteq> []"
    using slugify_shaped [of L x] by (simp add: slug_shaped_def)
  moreover have "slugify L x = lit ''episode''" if "\<not> list_ex slug_alnum (pre_slug L x)"
  proof -
    have "sub_nonalnum (pre_slug L x) = [] \<or> sub_nonalnum (pre_slug L x) = [45]"
      using that by (simp add: sub_nonalnum_none)
    then have "strip_of (lit ''-'') (sub_hyphens (sub_nonalnum (pre_slug L x))) = []"
      by (auto simp: strip_of_def lit_def)
    then show ?thesis by (simp add: slugify_pre_slug)
  qed
  ultimately show ?thesis by blast
qed

theorem slugify_nonempty_witness:
  "slugify sample_library (lit '' ?! '') = lit ''episode'' \<and>
   slugify sample_library (lit '' ?! '') \<noteq> []"
proof -
  have "\<not> list_ex slug_alnum (pre_slug sample_library (lit '' ?! ''))"
    by code_simp
  then show ?thesis
    using slugify_nonempty [of sample_library "lit '' ?! ''"] by (simp add: lit_def)
qed

section \<open>Properties of the transformer\<close>

lemma strip_ends:
  assumes "strip s \<noteq> []"
  shows "\<not> isspace (hd (strip s)) \<and> \<not> isspace (last (strip s))"
  using assms trim_both_ends [of isspace s] by (simp add: strip_def lstrip_def rstrip_def)

lemma parse_date_total: "\<exists>d. parse_date_rfc822 L s = Returns d"
  by (simp add: parse_date_rfc822_def try_except_def split: outcome.splits)

lemma build_front_matter_total: "\<exists>fm. build_front_matter L item = Returns fm"
  using parse_date_total [of L "text_or (pubDate_elem item)"]
  by (auto simp: build_front_matter_def Let_def)

lemma build_front_matter_fields:
  assumes "build_front_matter L item = Returns fm"
  shows "title fm = strip (text_or (title_elem item))"
    and "link fm = strip (text_or (link_elem item))"
    and "rss_embed fm = (case episode_id_from_link L (link fm) of None \<Rightarrow> []
                         | Some e \<Rightarrow> if e = [] then [] else iframe e (title fm))"
  using assms
  by (auto simp: build_front_matter_def Let_def split: outcome.splits option.splits)

lemma build_front_matter_dates:
  assumes "build_front_matter L item = Returns fm"
    and "parse_date_rfc822 L (text_or (pubDate_elem item)) = Returns d"
  shows "date fm = isoformat d \<and> display_date fm = strftime_dmy d"
  using assms by (auto simp: build_front_matter_def Let_def)

text \<open>What the search for the identifier returns, and where it stands in the link.\<close>

lemma eid_at_Some:
  assumes "eid_at digit s = Some e"
  shows "e \<noteq> [] \<and> list_all digit e \<and>
         (s = e \<or> s = e @ [47] \<or> s = e @ [10] \<or> s = e @ [47, 10])"
proof -
  let ?r = "dropWhile digit s"
  from assms have e: "e = takeWhile digit s" and ne: "e \<noteq> []"
    and r: "optional (\<lambda>c. c = 47) ?r = [] \<or> optional (\<lambda>c. c = 47) ?r = [10]"
    by (auto simp: eid_at_def Let_def split: if_splits)
  have s: "s = e @ ?r" by (simp add: e)
  have "list_all digit e" by (simp add: e list_all_iff) (meson set_takeWhileD)
  moreover have "?r = [] \<or> ?r = [47] \<or> ?r = [10] \<or> ?r = [47, 10]"
    using r by (auto simp: optional_def split: list.splits if_splits)
  ultimately show ?thesis using ne s by (metis append_Nil2)
qed

lemma re_search_eid_Some:
  "re_search_eid digit l = Some e \<Longrightarrow>
     e \<noteq> [] \<and> list_all digit e \<and>
     (\<exists>p. l = p @ [47] @ e \<or> l = p @ [47] @ e @ [47] \<or> l = p @ [47] @ e @ [10] \<or>
          l = p @ [47] @ e @ [47, 10])"
proof (induction l)
  case Nil
  then show ?case by simp
next
  case (Cons c cs)
  show ?case
  proof (cases "c = 47 \<and> eid_at digit cs \<noteq> None")
    case True
    with Cons.prems have "eid_at digit cs = Some e" by auto
    from eid_at_Some [OF this] True show ?thesis
      by (metis append_Cons append_Nil)
  next
    case False
    with Cons.prems have "re_search_eid digit cs = Some e" by (auto split: if_splits)
    from Cons.IH [OF this] show ?thesis
      by (metis append_Cons)
  qed
qed

lemma eid_of_stripped_link:
  assumes "episode_id_from_link L (strip l) = Some e"
  shows "e \<noteq> [] \<and> list_all (re_digit L) e \<and>
         (\<exists>p. strip l = p @ [47] @ e \<or> strip l = p @ [47] @ e @ [47])"
proof -
  from assms have "re_search_eid (re_digit L) (strip l) = Some e"
    by (simp add: episode_id_from_link_def)
  from re_search_eid_Some [OF this] obtain p where e: "e \<noteq> []" "list_all (re_digit L) e"
    and p: "strip l = p @ [47] @ e \<or> strip l = p @ [47] @ e @ [47] \<or>
            strip l = p @ [47] @ e @ [10] \<or> strip l = p @ [47] @ e @ [47, 10]"
    by blast
  from p have "strip l \<noteq> []" by auto
  then have "\<not> isspace (last (strip l))" using strip_ends by blast
  then have "last (strip l) \<noteq> 10" by (auto simp: isspace_def)
  with p have "strip l = p @ [47] @ e \<or> strip l = p @ [47] @ e @ [47]" by auto
  with e show ?thesis by blast
qed

text \<open>
  The other way round: a non-empty run of digits after a slash that ends the link,
  but for an optional last slash, is what the search returns.
\<close>

lemma eid_at_complete:
  assumes "\<not> digit 47" "e \<noteq> []" "list_all digit e" "t = [] \<or> t = [47]"
  shows "eid_at digit (e @ t) = Some e"
proof -
  have "takeWhile digit (e @ t) = e" "dropWhile digit (e @ t) = t"
    using assms by (auto simp: list_all_iff)
  then show ?thesis using assms by (auto simp: eid_at_def optional_def)
qed

lemma eid_at_blocked:
  assumes "\<not> digit 47" "e @ t \<noteq> []" "e @ t \<noteq> [10]"
  shows "eid_at digit (q @ [47] @ e @ t) = None"
proof -
  let ?d = "dropWhile digit q"
  let ?r = "optional (\<lambda>c. c = 47) (dropWhile digit (q @ [47] @ e @ t))"
  have d: "dropWhile digit (q @ [47] @ e @ t) = ?d @ 47 # e @ t"
    using assms(1) by (simp add: dropWhile_append3)
  have "\<exists>u. ?r = u @ e @ t"
  proof (cases ?d)
    case Nil
    have "dropWhile digit (q @ [47] @ e @ t) = 47 # e @ t"
      unfolding d Nil by simp
    then have "?r = [] @ e @ t" by (simp add: optional_def)
    then show ?thesis by blast
  next
    case (Cons x d')
    have "dropWhile digit (q @ [47] @ e @ t) = x # d' @ 47 # e @ t"
      unfolding d Cons by simp
    then have "?r = (d' @ [47]) @ e @ t \<or> ?r = (x # d' @ [47]) @ e @ t"
      by (simp add: optional_def)
    then show ?thesis by blast
  qed
  then obtain u where u: "?r = u @ e @ t" by blast
  have "?r \<noteq> [] \<and> ?r \<noteq> [10]"
  proof (cases u)
    case Nil
    with u assms(2,3) show ?thesis by simp
  next
    case (Cons a u')
    with u assms(2) show ?thesis by (cases u') auto
  qed
  then show ?thesis by (simp add: eid_at_def Let_def)
qed

lemma re_search_eid_complete:
  assumes "\<not> digit 47" "e \<noteq> []" "list_all digit e" "t = [] \<or> t = [47]" "e @ t \<noteq> [10]"
  shows "re_search_eid digit (p @ [47] @ e @ t) = Some e"
proof (induction p)
  case Nil
  show ?case using eid_at_complete [OF assms(1-4)] by simp
next
  case (Cons c p)
  have "eid_at digit (p @ [47] @ e @ t) = None"
    using assms(1,2,5) by (intro eid_at_blocked) auto
  with Cons show ?case by simp
qed

lemma eid_of_stripped_link_complete:
  assumes "\<not> re_digit L 47" "e \<noteq> []" "list_all (re_digit L) e"
    and "strip l = p @ [47] @ e @ t" "t = [] \<or> t = [47]"
  shows "episode_id_from_link L (strip l) = Some e"
proof -
  have "strip l \<noteq> []" using assms(4) by simp
  then have "\<not> isspace (last (strip l))" using strip_ends by blast
  then have "last (strip l) \<noteq> 10" by (auto simp: isspace_def)
  then have "e @ t \<noteq> [10]" using assms(2,4,5) by auto
  from re_search_eid_complete [OF assms(1-3,5) this, of p]
  show ?thesis by (simp add: episode_id_from_link_def assms(4))
qed

lemma iframe_nonempty: "iframe e t \<noteq> []"
  by (simp add: iframe_def lit_def)

lemma example_eid:
  assumes "\<And>c. 0 \<le> c \<and> c < 128 \<Longrightarrow> re_digit L c = ascii_digit c"
  shows "episode_id_from_link L (lit ''https://x/lytte/12345'') = Some (lit ''12345'')"
  by (simp add: episode_id_from_link_def lit_def eid_at_def assms ascii_digit_def between_def
      optional_def)

lemma example_contains:
  "contains (lit ''player.rss.com/lytte/12345'') (iframe (lit ''12345'') t)"
  by (simp add: iframe_def lit_def)

text \<open>
  C4, as the spec states it, asks for the escaped title in the embed markup. The
  transformer puts the trimmed title into the markup as it is: for a title with a
  double quote the markup is not the template filled with the title that
  \<open>yml_escape_inline\<close>, the one escaping function of the script, returns.
\<close>

theorem embed_title_not_escaped:
  \<open>build_front_matter sample_library quoted_item =
     Returns \<lparr>title = lit ''a"b'', date = lit ''2024-01-02'', display_date = lit ''02-01-2024'',
       description = lit ''Hello'' @ [10, 10] @ lit ''World'',
       rss_embed = iframe (lit ''12345'') (lit ''a"b''),
       audio_url = lit ''https://x/a.mp3'', link = lit ''https://x/lytte/12345'',
       tags = [lit ''lytte'' @ [248] @ lit ''velser'', lit ''podcast''], draft = False\<rparr> \<and>
   iframe (lit ''12345'') (lit ''a"b'')
       \<noteq> iframe (lit ''12345'') (yml_escape_inline (lit ''a"b''))\<close>
  by code_simp

text \<open>
  C4, amended. For every feed item the embed markup is non-empty if and only if an
  identifier is extracted from the trimmed link. What is extracted is a non-empty run
  of digits that follows a slash and ends the link, but for an optional last slash;
  and every such run is extracted (a slash is no digit): a link that ends with a
  slash, digits and at most one more slash always gives an identifier and a non-empty
  markup. The markup is the iframe template filled with that identifier and with the
  trimmed title as it is, unescaped. For the link \<open>https://x/lytte/12345\<close> the
  identifier is \<open>12345\<close> and the markup contains \<open>player.rss.com/lytte/12345\<close>
  (over every library whose \<open>\d\<close> is the ASCII digits on ASCII).
\<close>

theorem embed_markup_contract:
  assumes "build_front_matter L item = Returns fm"
  shows "(rss_embed fm \<noteq> [] \<longleftrightarrow> episode_id_from_link L (link fm) \<noteq> None) \<and>
         (\<forall>e. episode_id_from_link L (link fm) = Some e \<longrightarrow>
              rss_embed fm = iframe e (title fm) \<and> e \<noteq> [] \<and> list_all (re_digit L) e \<and>
              (\<exists>p. link fm = p @ [47] @ e \<or> link fm = p @ [47] @ e @ [47])) \<and>
         (\<not> re_digit L 47 \<longrightarrow>
            (\<forall>p e. e \<noteq> [] \<and> list_all (re_digit L) e \<and>
                   (link fm = p @ [47] @ e \<or> link fm = p @ [47] @ e @ [47]) \<longrightarrow>
               episode_id_from_link L (link fm) = Some e \<and>
               rss_embed fm = iframe e (title fm))) \<and>
         title fm = strip (text_or (title_elem item)) \<and>
         link fm = strip (text_or (link_elem item)) \<and>
         ((\<forall>c. 0 \<le> c \<and> c < 128 \<longrightarrow> re_digit L c = ascii_digit c) \<and>
          link fm = lit ''https://x/lytte/12345'' \<longrightarrow>
            episode_id_from_link L (link fm) = Some (lit ''12345'') \<and>
            contains (lit ''player.rss.com/lytte/12345'') (rss_embed fm))"
proof -
  note f = build_front_matter_fields [OF assms]
  have id: "e \<noteq> [] \<and> list_all (re_digit L) e \<and>
        (\<exists>p. link fm = p @ [47] @ e \<or> link fm = p @ [47] @ e @ [47])"
    if "episode_id_from_link L (link fm) = Some e" for e
    using that eid_of_stripped_link [of L "text_or (link_elem item)" e] by (simp add: f(2))
  have 1: "rss_embed fm \<noteq> [] \<longleftrightarrow> episode_id_from_link L (link fm) \<noteq> None"
    using id by (auto simp: f(3) iframe_nonempty split: option.splits)
  have 2: "rss_embed fm = iframe e (title fm)"
    if "episode_id_from_link L (link fm) = Some e" for e
    using that id [OF that] by (simp add: f(3))
  have 3: "episode_id_from_link L (link fm) = Some (lit ''12345'') \<and>
        contains (lit ''player.rss.com/lytte/12345'') (rss_embed fm)"
    if d: "\<forall>c. 0 \<le> c \<and> c < 128 \<longrightarrow> re_digit L c = ascii_digit c"
      and l: "link fm = lit ''https://x/lytte/12345''"
  proof -
    have e: "episode_id_from_link L (link fm) = Some (lit ''12345'')"
      unfolding l using d by (intro example_eid) blast
    from 2 [OF e] show ?thesis using e by (simp add: example_contains)
  qed
  have 4: "episode_id_from_link L (link fm) = Some e \<and> rss_embed fm = iframe e (title fm)"
    if n: "\<not> re_digit L 47" and e: "e \<noteq> []" "list_all (re_digit L) e"
      and l: "link fm = p @ [47] @ e \<or> link fm = p @ [47] @ e @ [47]" for p e
  proof -
    from l obtain t where t: "t = [] \<or> t = [47]" and "link fm = p @ [47] @ e @ t"
      by auto
    then have "strip (text_or (link_elem item)) = p @ [47] @ e @ t" by (simp add: f(2))
    from eid_of_stripped_link_complete [OF n e this t]
    have "episode_id_from_link L (link fm) = Some e" by (simp add: f(2))
    with 2 show ?thesis by blast
  qed
  show ?thesis using 1 2 3 4 id f(1,2) by blast
qed

theorem embed_markup_contract_witness:
  "(\<exists>fm. build_front_matter sample_library sample_item = Returns fm \<and>
        rss_embed fm = iframe (lit ''12345'') (lit ''Episode 1'') \<and>
        contains (lit ''player.rss.com/lytte/12345'') (rss_embed fm)) \<and>
   (\<exists>fm. build_front_matter sample_library slashed_item = Returns fm \<and>
        link fm = lit ''https://x/lytte/12345/'' \<and>
        episode_id_from_link sample_library (link fm) = Some (lit ''12345'') \<and>
        rss_embed fm = iframe (lit ''12345'') (lit ''Episode 1''))"
proof -
  obtain fm where fm: "build_front_matter sample_library sample_item = Returns fm"
    using build_front_matter_total by blast
  note c = embed_markup_contract [OF fm]
  have l: "strip (text_or (link_elem sample_item)) = lit ''https://x/lytte/12345''"
    and t: "strip (text_or (title_elem sample_item)) = lit ''Episode 1''"
    by code_simp+
  have d: "\<forall>c. 0 \<le> c \<and> c < 128 \<longrightarrow> re_digit sample_library c = ascii_digit c"
    by (simp add: sample_library_def)
  from c l have "link fm = lit ''https://x/lytte/12345''" by simp
  with c d have e: "episode_id_from_link sample_library (link fm) = Some (lit ''12345'')"
    and k: "contains (lit ''player.rss.com/lytte/12345'') (rss_embed fm)"
    by blast+
  from c e t have "rss_embed fm = iframe (lit ''12345'') (lit ''Episode 1'')" by simp
  with fm k have first: "\<exists>fm. build_front_matter sample_library sample_item = Returns fm \<and>
        rss_embed fm = iframe (lit ''12345'') (lit ''Episode 1'') \<and>
        contains (lit ''player.rss.com/lytte/12345'') (rss_embed fm)" by blast
  obtain fm2 where fm2: "build_front_matter sample_library slashed_item = Returns fm2"
    using build_front_matter_total by blast
  note c2 = embed_markup_contract [OF fm2]
  have l2: "strip (text_or (link_elem slashed_item)) = lit ''https://x/lytte/12345/''"
    and t2: "strip (text_or (title_elem slashed_item)) = lit ''Episode 1''"
    by code_simp+
  have n: "\<not> re_digit sample_library 47"
    by (simp add: sample_library_def ascii_digit_def between_def)
  have ds: "lit ''12345'' \<noteq> []" "list_all (re_digit sample_library) (lit ''12345'')"
    by (simp_all add: sample_library_def ascii_digit_def between_def lit_def)
  from c2 l2 have k2: "link fm2 = lit ''https://x/lytte/12345/''" by simp
  then have "link fm2 = lit ''https://x/lytte'' @ [47] @ lit ''12345'' @ [47]"
    by (simp add: lit_def)
  with c2 n ds
  have "episode_id_from_link sample_library (link fm2) = Some (lit ''12345'') \<and>
        rss_embed fm2 = iframe (lit ''12345'') (title fm2)"
    by blast
  with c2 t2 fm2 k2 have "\<exists>fm. build_front_matter sample_library slashed_item = Returns fm \<and>
        link fm = lit ''https://x/lytte/12345/'' \<and>
        episode_id_from_link sample_library (link fm) = Some (lit ''12345'') \<and>
        rss_embed fm = iframe (lit ''12345'') (lit ''Episode 1'')" by simp
  with first show ?thesis by blast
qed

text \<open>
  C6. The date of an item is parsed as RFC 822 first, then as ISO 8601 when that
  raises, and is the current UTC date when that raises too: for every pubDate string,
  whatever the two parsers do with it, a date is returned and nothing is raised. The
  transformer always yields its record, and the two dates of the record are the date
  that this cascade returns for the pubDate of the item, written as \<open>YYYY-MM-DD\<close>
  and as \<open>DD-MM-YYYY\<close>. When \<open>strptime\<close> reads
  \<open>Mon, 02 Jan 2024 10:00:00 +0000\<close> as 2 January 2024, that string gives the ISO
  date \<open>2024-01-02\<close> and the display date \<open>02-01-2024\<close>.
\<close>

theorem parse_date_cascade:
  "(\<exists>d. parse_date_rfc822 L s = Returns d) \<and>
   (\<forall>d. strptime_rfc822 L s = Returns d \<longrightarrow> parse_date_rfc822 L s = Returns d) \<and>
   (\<forall>d. strptime_rfc822 L s = Raises \<and> fromisoformat L s = Returns d \<longrightarrow>
        parse_date_rfc822 L s = Returns d) \<and>
   (strptime_rfc822 L s = Raises \<and> fromisoformat L s = Raises \<longrightarrow>
        parse_date_rfc822 L s = Returns (utc_today L)) \<and>
   (\<exists>fm d. build_front_matter L item = Returns fm \<and>
        parse_date_rfc822 L (text_or (pubDate_elem item)) = Returns d \<and>
        date fm = isoformat d \<and> display_date fm = strftime_dmy d) \<and>
   (strptime_rfc822 L (lit ''Mon, 02 Jan 2024 10:00:00 +0000'')
        = Returns \<lparr>year = 2024, month = 1, day = 2\<rparr> \<and>
    text_or (pubDate_elem item) = lit ''Mon, 02 Jan 2024 10:00:00 +0000'' \<longrightarrow>
      (\<exists>fm. build_front_matter L item = Returns fm \<and> date fm = lit ''2024-01-02'' \<and>
            display_date fm = lit ''02-01-2024''))"
proof -
  have iso: "isoformat \<lparr>year = 2024, month = 1, day = 2\<rparr> = lit ''2024-01-02''"
    and dmy: "strftime_dmy \<lparr>year = 2024, month = 1, day = 2\<rparr> = lit ''02-01-2024''"
    by code_simp+
  obtain fm where fm: "build_front_matter L item = Returns fm"
    using build_front_matter_total by blast
  obtain d where d: "parse_date_rfc822 L (text_or (pubDate_elem item)) = Returns d"
    using parse_date_total by blast
  note dates = build_front_matter_dates [OF fm d]
  have rec: "\<exists>fm d. build_front_matter L item = Returns fm \<and>
        parse_date_rfc822 L (text_or (pubDate_elem item)) = Returns d \<and>
        date fm = isoformat d \<and> display_date fm = strftime_dmy d"
    using fm d dates by blast
  have ex: "\<exists>fm. build_front_matter L item = Returns fm \<and> date fm = lit ''2024-01-02'' \<and>
            display_date fm = lit ''02-01-2024''"
    if c: "strptime_rfc822 L (lit ''Mon, 02 Jan 2024 10:00:00 +0000'')
        = Returns \<lparr>year = 2024, month = 1, day = 2\<rparr>"
      and t: "text_or (pubDate_elem item) = lit ''Mon, 02 Jan 2024 10:00:00 +0000''"
  proof -
    have "parse_date_rfc822 L (text_or (pubDate_elem item))
        = Returns \<lparr>year = 2024, month = 1, day = 2\<rparr>"
      by (simp add: parse_date_rfc822_def try_except_def c t)
    from build_front_matter_dates [OF fm this]
    have "date fm = lit ''2024-01-02'' \<and> display_date fm = lit ''02-01-2024''"
      by (simp only: iso dmy)
    with fm show ?thesis by blast
  qed
  have cascade: "(\<exists>d. parse_date_rfc822 L s = Returns d) \<and>
   (\<forall>d. strptime_rfc822 L s = Returns d \<longrightarrow> parse_date_rfc822 L s = Returns d) \<and>
   (\<forall>d. strptime_rfc822 L s = Raises \<and> fromisoformat L s = Returns d \<longrightarrow>
        parse_date_rfc822 L s = Returns d) \<and>
   (strptime_rfc822 L s = Raises \<and> fromisoformat L s = Raises \<longrightarrow>
        parse_date_rfc822 L s = Returns (utc_today L))"
    by (auto simp: parse_date_rfc822_def try_except_def split: outcome.splits)
  from cascade rec ex show ?thesis by blast
qed

theorem parse_date_cascade_witness:
  "parse_date_rfc822 sample_library (lit ''garbage'') = Returns (utc_today sample_library) \<and>
   (\<exists>fm. build_front_matter sample_library sample_item = Returns fm \<and>
         date fm = lit ''2024-01-02'' \<and> display_date fm = lit ''02-01-2024'')"
proof -
  have g1: "strptime_rfc822 sample_library (lit ''garbage'') = Raises"
    by code_simp
  have g2: "fromisoformat sample_library (lit ''garbage'') = Raises"
    by (simp add: sample_library_def)
  have c: "strptime_rfc822 sample_library (lit ''Mon, 02 Jan 2024 10:00:00 +0000'')
        = Returns \<lparr>year = 2024, month = 1, day = 2\<rparr>"
    by code_simp
  have t: "text_or (pubDate_elem sample_item) = lit ''Mon, 02 Jan 2024 10:00:00 +0000''"
    by (simp add: sample_item_def text_or_def)
  show ?thesis
    using parse_date_cascade [of sample_library "lit ''garbage''" sample_item] g1 g2 c t
    by blast
qed

section \<open>Properties of the writer\<close>

text \<open>
  C5. The spec asks that the rendered front matter list exactly the nine keys, between
  two marker lines, whatever the fields hold. The script writes a field between double
  quotes after \<open>yml_escape_inline\<close>, which escapes the double quote and nothing else,
  so a line break in a title reaches the file. The item whose title is the three lines
  \<open>Del 1\<close>, \<open>---\<close> and \<open>draft: true\<close> gives a record with that title, and its
  rendered front matter has three marker lines and the key \<open>draft\<close> twice, once
  right after the title; the pattern with which the writer reads its own files back
  takes the single line \<open>title: "Del 1\<close> for the whole front matter.
\<close>

theorem front_matter_keys_broken:
  \<open>build_front_matter sample_library newline_item = Returns newline_episode \<and>
   splitlines (render_front_matter newline_episode) =
     [lit ''---'',
      lit ''title: "Del 1'',
      lit ''---'',
      lit ''draft: true"'',
      lit ''date: "2024-01-02"'',
      lit ''display_date: "02-01-2024"'',
      lit ''description: ""'',
      lit ''rss_embed: ""'',
      lit ''audio_url: ""'',
      lit ''link: ""'',
      lit ''tags: ["lytte'' @ [248] @ lit ''velser","podcast"]'',
      lit ''draft: false'',
      lit ''---''] \<and>
   map_option fst (match_front_matter (render_front_matter newline_episode))
     = Some (lit ''title: "Del 1'')\<close>
  by code_simp

text \<open>The pattern of the writer, and how it meets \<open>in\<close> and \<open>strip\<close>.\<close>

lemma contains_iff: "contains sub s \<longleftrightarrow> (\<exists>p q. s = p @ sub @ q)"
proof (induction s)
  case Nil
  then show ?case by auto
next
  case (Cons c cs)
  show ?case
  proof
    assume "contains sub (c # cs)"
    then consider "prefix sub (c # cs)" | "contains sub cs" by auto
    then show "\<exists>p q. c # cs = p @ sub @ q"
    proof cases
      case 1
      then obtain q where "c # cs = sub @ q" by (auto simp: prefix_def)
      then have "c # cs = [] @ sub @ q" by simp
      then show ?thesis by blast
    next
      case 2
      with Cons.IH obtain p q where "cs = p @ sub @ q" by auto
      then have "c # cs = (c # p) @ sub @ q" by simp
      then show ?thesis by blast
    qed
  next
    assume "\<exists>p q. c # cs = p @ sub @ q"
    then obtain p q where pq: "c # cs = p @ sub @ q" by auto
    show "contains sub (c # cs)"
    proof (cases p)
      case Nil
      with pq have "prefix sub (c # cs)" by (simp add: prefix_def)
      then show ?thesis by simp
    next
      case (Cons a p')
      with pq have "cs = p' @ sub @ q" by simp
      with Cons.IH show ?thesis by auto
    qed
  qed
qed

lemma trim_both_keeps:
  assumes "sub \<noteq> []" "\<not> P (hd sub)" "\<not> P (last sub)"
  shows "rev (dropWhile P (rev (dropWhile P (p @ sub @ q))))
           = dropWhile P p @ sub @ rev (dropWhile P (rev q))"
proof -
  obtain x m where sub1: "sub = x # m" using assms(1) by (cases sub) auto
  obtain m' y where sub2: "sub = m' @ [y]" using assms(1) by (cases sub rule: rev_cases) auto
  have x: "\<not> P x" using assms(2) sub1 by simp
  have y: "\<not> P y" using assms(3) sub2 by simp
  have "dropWhile P (p @ sub @ q) = dropWhile P p @ sub @ q"
    using x by (simp add: sub1 dropWhile_append3)
  moreover have "dropWhile P (rev (dropWhile P p @ sub @ q))
      = dropWhile P (rev q) @ rev sub @ rev (dropWhile P p)"
    using y by (simp add: sub2 dropWhile_append3)
  ultimately show ?thesis by simp
qed

lemma contains_strip:
  assumes "contains sub s" "sub \<noteq> []" "\<not> isspace (hd sub)" "\<not> isspace (last sub)"
  shows "contains sub (strip s)"
proof -
  from assms(1) obtain p q where "s = p @ sub @ q" by (auto simp: contains_iff)
  then have "strip s = dropWhile isspace p @ sub @ rev (dropWhile isspace (rev q))"
    using trim_both_keeps [OF assms(2-4)] by (simp add: strip_def lstrip_def rstrip_def)
  then show ?thesis by (auto simp: contains_iff)
qed

lemma marker_strip:
  assumes "contains (lit ''episodeplayer'') g"
  shows "contains (lit ''episodeplayer'') (strip g) \<and> strip g \<noteq> [] \<and> \<not> endswith (strip g) [10]"
proof -
  have c: "contains (lit ''episodeplayer'') (strip g)"
    using assms by (rule contains_strip) (simp_all add: lit_def isspace_def)
  then have ne: "strip g \<noteq> []" by (auto simp: contains_iff lit_def)
  have "\<not> isspace (last (strip g))" using ne strip_ends by blast
  then have "last (strip g) \<noteq> 10" by (auto simp: isspace_def)
  then have "\<not> endswith (strip g) [10]"
    using ne by (auto simp: endswith_def suffix_def)
  with c ne show ?thesis by simp
qed

lemma normalize_file_marker:
  assumes stored: "files fs p = Some stored"
    and m: "match_front_matter (universal_newlines stored) = Some (g1, g2)"
    and marker: "contains (lit ''episodeplayer'') g2"
  shows "normalize_file L fs p fm =
     Returns (if render_front_matter fm @ strip g2 @ [10] = universal_newlines stored
              then (fs, False)
              else (write_text fs p (render_front_matter fm @ strip g2 @ [10]), True))"
  using marker_strip [OF marker] stored m
  by (simp add: normalize_file_def read_text_def Let_def)

lemma normalize_file_legacy:
  assumes stored: "files fs p = Some stored"
    and m: "match_front_matter (universal_newlines stored) = None"
  shows "normalize_file L fs p fm =
     Returns (write_text fs p
       (render_front_matter fm @ standard_body L fm @
        (if strip (universal_newlines stored) = [] then []
         else [10] @ lit ''---'' @ [10] @ lit ''<!-- Tidligere innhold bevart under -->'' @ [10] @
              strip (universal_newlines stored) @ [10])), True)"
  using stored m by (simp add: normalize_file_def read_text_def Let_def)

lemma find_close_exists: "find_close (a @ [10] @ lit ''---'' @ [10] @ r) \<noteq> None"
proof (induction a)
  case Nil
  show ?case
    by (simp add: lit_def match_close_def match_newline_def optional_def expect_def
        match_literal_def)
next
  case (Cons c a)
  then show ?case by (cases "match_close (c # a @ [10] @ lit ''---'' @ [10] @ r)") auto
qed

text \<open>What the writer has rendered parses as front matter again.\<close>

lemma render_front_matter_framed:
  "\<exists>mid. render_front_matter fm = lit ''---'' @ [10] @ mid @ [10] @ lit ''---'' @ [10]"
proof -
  have "render_front_matter fm =
      lit ''---'' @ [10] @ join [10] (map (render_entry fm) FRONTMATTER_ORDER) @ [10] @
      lit ''---'' @ [10]"
    by (simp add: render_front_matter_def FRONTMATTER_ORDER_def)
  then show ?thesis by blast
qed

lemma match_front_matter_rendered: "match_front_matter (render_front_matter fm @ rest) \<noteq> None"
proof -
  obtain mid where "render_front_matter fm = lit ''---'' @ [10] @ mid @ [10] @ lit ''---'' @ [10]"
    using render_front_matter_framed by blast
  then have "match_front_matter (render_front_matter fm @ rest)
      = find_close (mid @ [10] @ lit ''---'' @ [10] @ rest)"
    by (simp add: match_front_matter_def match_literal_def match_newline_def optional_def
        expect_def)
  then show ?thesis using find_close_exists by simp
qed

lemma files_one_file: "files (one_file path stored) path = Some stored"
  by (simp add: one_file_def)

text \<open>
  C2, as the spec states it, has the body kept byte for byte. The writer trims the
  body: of a body with a blank line before the marker and a blank line at its end the
  new file holds the trimmed text and one newline, and the body as it was stands
  nowhere in the new file.
\<close>

theorem body_not_verbatim:
  "match_front_matter (universal_newlines padded_file) = Some (lit ''title: x'', padded_body) \<and>
   contains (lit ''episodeplayer'') padded_body \<and>
   content_of (normalize_file sample_library (one_file linkless_path padded_file) linkless_path
       linkless_episode) linkless_path
     = Some (render_front_matter linkless_episode @
             lit ''{{< episodeplayer >}}'' @ [10, 10] @ lit ''Mine notater'' @ [10]) \<and>
   \<not> contains padded_body
       (render_front_matter linkless_episode @
        lit ''{{< episodeplayer >}}'' @ [10, 10] @ lit ''Mine notater'' @ [10])"
  by code_simp

text \<open>
  C2, amended. For every existing file whose content, as read, parses as a
  front-matter block followed by a body that contains the marker \<open>episodeplayer\<close>,
  the new content is the front matter rendered from the current record, followed by
  the body with the whitespace at its two ends trimmed and one newline appended; the
  file is written, and reported changed, exactly when this differs from what was read.
  A body that begins with a character other than whitespace and ends with one
  followed by a single newline is so kept byte for byte.
\<close>

theorem body_kept_trimmed:
  assumes "files fs p = Some stored"
    and "match_front_matter (universal_newlines stored) = Some (g1, g2)"
    and "contains (lit ''episodeplayer'') g2"
  shows "normalize_file L fs p fm =
           Returns (if render_front_matter fm @ strip g2 @ [10] = universal_newlines stored
                    then (fs, False)
                    else (write_text fs p (render_front_matter fm @ strip g2 @ [10]), True)) \<and>
         (\<forall>b. g2 = b @ [10] \<and> b \<noteq> [] \<and> \<not> isspace (hd b) \<and> \<not> isspace (last b) \<longrightarrow>
              strip g2 @ [10] = g2)"
proof -
  have s: "strip (b @ [10]) = b" if "b \<noteq> []" "\<not> isspace (hd b)" "\<not> isspace (last b)" for b
  proof -
    have nl: "isspace 10" by (simp add: isspace_def)
    have "dropWhile isspace (rev b) = rev b"
      using that by (simp add: dropWhile_eq_self_iff hd_rev)
    then have "rstrip (b @ [10]) = b" by (simp add: rstrip_def nl)
    moreover have "lstrip (b @ [10]) = b @ [10]"
      using that by (simp add: lstrip_def dropWhile_eq_self_iff)
    ultimately show ?thesis by (simp add: strip_def)
  qed
  have 1: "normalize_file L fs p fm =
           Returns (if render_front_matter fm @ strip g2 @ [10] = universal_newlines stored
                    then (fs, False)
                    else (write_text fs p (render_front_matter fm @ strip g2 @ [10]), True))"
    by (rule normalize_file_marker [OF assms])
  have 2: "\<forall>b. g2 = b @ [10] \<and> b \<noteq> [] \<and> \<not> isspace (hd b) \<and> \<not> isspace (last b) \<longrightarrow>
              strip g2 @ [10] = g2"
    using s by auto
  show ?thesis by (rule conjI [OF 1 2])
qed

theorem body_kept_trimmed_witness:
  "normalize_file sample_library (one_file linkless_path padded_file) linkless_path
       linkless_episode
     = Returns (write_text (one_file linkless_path padded_file) linkless_path
          (render_front_matter linkless_episode @
           lit ''{{< episodeplayer >}}'' @ [10, 10] @ lit ''Mine notater'' @ [10]), True)"
proof -
  have m: "match_front_matter (universal_newlines padded_file) = Some (lit ''title: x'', padded_body)"
    and c: "contains (lit ''episodeplayer'') padded_body"
    and s: "strip padded_body = lit ''{{< episodeplayer >}}'' @ [10, 10] @ lit ''Mine notater''"
    by code_simp+
  have d: "render_front_matter linkless_episode @ strip padded_body @ [10]
      \<noteq> universal_newlines padded_file"
    by code_simp
  show ?thesis
    using body_kept_trimmed [OF files_one_file m c, where L = sample_library and fm = linkless_episode] d
    by (simp add: s)
qed

text \<open>
  C3, as the spec states it, has the legacy text appended verbatim after a separator
  comment. The writer appends it trimmed, and appends nothing for a blank file: of an
  indented legacy line the new file holds the line without its indentation, the line
  as it was standing nowhere in it, and for a file of one space and a newline the new
  file is the front matter and the template alone, with no comment.
\<close>

theorem legacy_not_verbatim:
  "match_front_matter (universal_newlines indented_legacy) = None \<and>
   content_of (normalize_file sample_library (one_file linkless_path indented_legacy)
       linkless_path linkless_episode) linkless_path
     = Some (render_front_matter linkless_episode @ standard_body sample_library linkless_episode @
             [10] @ lit ''---'' @ [10] @ lit ''<!-- Tidligere innhold bevart under -->'' @ [10] @
             lit ''Gammelt innhold'' @ [10]) \<and>
   \<not> contains indented_legacy
       (render_front_matter linkless_episode @ standard_body sample_library linkless_episode @
        [10] @ lit ''---'' @ [10] @ lit ''<!-- Tidligere innhold bevart under -->'' @ [10] @
        lit ''Gammelt innhold'' @ [10]) \<and>
   match_front_matter (universal_newlines [32, 10]) = None \<and>
   content_of (normalize_file sample_library (one_file linkless_path [32, 10])
       linkless_path linkless_episode) linkless_path
     = Some (render_front_matter linkless_episode @ standard_body sample_library linkless_episode) \<and>
   \<not> contains (lit ''<!--'')
       (render_front_matter linkless_episode @ standard_body sample_library linkless_episode)"
  by code_simp

text \<open>
  C3, amended. For every existing file whose content, as read, does not parse as a
  front-matter block, the writer writes the front matter rendered from the record and
  the generated body, followed, when the old text is not blank, by a marker line, the
  comment line and the old text with the whitespace at its two ends trimmed, then a
  newline. The new content parses as front matter, and the writer reports changed in
  every such case.
\<close>

theorem legacy_normalized:
  assumes "files fs p = Some stored"
    and "match_front_matter (universal_newlines stored) = None"
  shows "let legacy = strip (universal_newlines stored);
             new = render_front_matter fm @ standard_body L fm @
                   (if legacy = [] then []
                    else [10] @ lit ''---'' @ [10] @
                         lit ''<!-- Tidligere innhold bevart under -->'' @ [10] @ legacy @ [10])
         in normalize_file L fs p fm = Returns (write_text fs p new, True) \<and>
            match_front_matter new \<noteq> None"
  using normalize_file_legacy [OF assms, where L = L and fm = fm] match_front_matter_rendered [of fm]
  by (simp add: Let_def)

theorem legacy_normalized_witness:
  "normalize_file sample_library (one_file linkless_path indented_legacy) linkless_path
       linkless_episode
     = Returns (write_text (one_file linkless_path indented_legacy) linkless_path
          (render_front_matter linkless_episode @ standard_body sample_library linkless_episode @
           [10] @ lit ''---'' @ [10] @ lit ''<!-- Tidligere innhold bevart under -->'' @ [10] @
           lit ''Gammelt innhold'' @ [10]), True)"
proof -
  have m: "match_front_matter (universal_newlines indented_legacy) = None"
    and s: "strip (universal_newlines indented_legacy) = lit ''Gammelt innhold''"
    by code_simp+
  have n: "lit ''Gammelt innhold'' \<noteq> []" by (simp add: lit_def)
  show ?thesis
    using legacy_normalized [OF files_one_file m, where L = sample_library and fm = linkless_episode] n
    by (simp add: Let_def s)
qed

text \<open>
  C1. Run again on the file it has just created, with the same record, the writer is
  to leave the file byte for byte as it is and to report it unchanged. For the record
  of an item with a guid and no link it does neither: the generated body ends in the
  line \<open>- Original episode: \<close> with a space at its end, the second run trims that
  space, writes the file again and reports it changed.
\<close>

theorem rerun_reports_changed:
  "build_front_matter sample_library linkless_item = Returns linkless_episode \<and>
   date linkless_episode @ lit ''-'' @ slugify sample_library (title linkless_episode)
     = lit ''2024-01-02-episode-1'' \<and>
   content_of (write_or_update_episode_file sample_library no_files linkless_episode
       (lit ''2024-01-02-episode-1'')) linkless_path
     = Some (render_front_matter linkless_episode @
             lit ''{{< episodeplayer >}}'' @ [10, 10] @ lit ''## Notater'' @ [10] @
             lit ''- Viktige punkter:'' @ [10] @ lit ''  - '' @ [8230, 10] @
             lit ''  - '' @ [8230, 10, 10] @ lit ''## Lenker'' @ [10] @
             lit ''- Original episode: '' @ [10]) \<and>
   content_of (rerun sample_library no_files linkless_episode (lit ''2024-01-02-episode-1''))
       linkless_path
     = Some (render_front_matter linkless_episode @
             lit ''{{< episodeplayer >}}'' @ [10, 10] @ lit ''## Notater'' @ [10] @
             lit ''- Viktige punkter:'' @ [10] @ lit ''  - '' @ [8230, 10] @
             lit ''  - '' @ [8230, 10, 10] @ lit ''## Lenker'' @ [10] @
             lit ''- Original episode:'' @ [10]) \<and>
   reported (rerun sample_library no_files linkless_episode (lit ''2024-01-02-episode-1''))
     = Returns True"
  by code_simp

section \<open>Properties of the run\<close>




lemma process_items_skip:
  "item_identifier item = [] \<Longrightarrow>
     process_items L (item # items) (fs, S, n) = process_items L items (fs, S, n)"
  by (simp add: item_identifier_def Let_def)



declare process_items.simps(2) [simp del]


lemma process_items_ignores_seen:
  "loop_files (process_items L items (fs, S1, n1))
     = loop_files (process_items L items (fs, S2, n2))"
proof (induction items arbitrary: fs S1 S2 n1 n2)
  case Nil
  then show ?case by (simp add: loop_files_def)
next
  case (Cons item items)
  show ?case
  proof (cases "item_identifier item = []")
    case True
    with Cons [of fs S1 n1 S2 n2] show ?thesis
      by (simp add: process_items_skip)
  next
    case False
    obtain fm where fm: "build_front_matter L item = Returns fm"
      using build_front_matter_total by blast
    show ?thesis
    proof (cases "write_or_update_episode_file L fs fm
        (date fm @ lit ''-'' @ slugify L (title fm))")
      case Raises
      then show ?thesis using False fm
        by (simp add: process_items.simps(2) item_identifier_def Let_def loop_files_def)
    next
      case (Returns p)
      obtain fs1 ch where p: "p = (fs1, ch)" by (cases p)
      from Cons [of fs1 _ _ _ _]
      show ?thesis using False fm Returns p
        by (simp add: process_items.simps(2) item_identifier_def Let_def)
    qed
  qed
qed

lemma content_files_main:
  assumes "initial_seen (load_state sf) = Returns S"
  shows "content_files fs (main L fs sf fd) =
     (case fd of Root (Some items) \<Rightarrow> loop_files (process_items L items (fs, S, 0)) | _ \<Rightarrow> fs)"
  using assms
  by (simp add: main_def content_files_def loop_files_def Let_def
      split: feed.splits option.splits sum.splits outcome.splits prod.splits)

text \<open>
  Two more ways a run ends. The directory of an item cannot be made: the loop raises
  there, the items after it are not processed and the state file is kept. The state
  holds a surrogate: the files are written, then \<open>save_state\<close> raises and leaves the
  state file empty.
\<close>

lemma run_raises_in_loop:
  "(case main sample_library no_files Absent (Root (Some [long_item, linkless_item])) of
      Raised fs1 Kept \<Rightarrow> writes fs1 = []
    | _ \<Rightarrow> False)"
  by code_simp

lemma run_empties_state_file:
  "(case main sample_library no_files surrogate_state (Root (Some [linkless_item])) of
      Raised fs1 Emptied \<Rightarrow> map fst (writes fs1) = [linkless_path]
    | _ \<Rightarrow> False)"
  by code_simp

text \<open>
  C10, as the spec states it, holds of any two loaded states. \<open>main\<close> makes a set of
  the loaded \<open>seen\<close> member before it fetches the feed. Of two runs on the same feed
  of one item and no content file, the one that loads \<open>{"seen": [["x"]]}\<close> raises
  there, a list cannot be hashed, and writes nothing; the one that loads
  \<open>{"seen": []}\<close> writes the file of the item.
\<close>

theorem state_interferes:
  "writes (content_files no_files
      (main sample_library no_files nested_state (Root (Some [linkless_item])))) = [] \<and>
   map fst (writes (content_files no_files
      (main sample_library no_files empty_state (Root (Some [linkless_item])))))
     = [linkless_path]"
  by code_simp

text \<open>
  C10, amended. A run whose loaded state cannot be made a set (the state is no
  dictionary, or its \<open>seen\<close> member cannot be iterated or holds a list or a
  dictionary) raises before the feed is fetched and leaves every file as it is. Any
  two runs whose loaded states can be made a set, on the same files, the same library
  and the same feed, make the same writes in the same order and leave the same
  content files, however each of them ends: among such states the loaded one decides
  neither whether an item is processed nor whether a file is written.
\<close>

theorem state_non_interference:
  "(initial_seen (load_state sf) = Raises \<longrightarrow> main L fs sf fd = Raised fs Kept) \<and>
   (initial_seen (load_state sf1) \<noteq> Raises \<and> initial_seen (load_state sf2) \<noteq> Raises \<longrightarrow>
      content_files fs (main L fs sf1 fd) = content_files fs (main L fs sf2 fd))"
proof (intro conjI impI)
  assume "initial_seen (load_state sf) = Raises"
  then show "main L fs sf fd = Raised fs Kept" by (simp add: main_def)
next
  assume "initial_seen (load_state sf1) \<noteq> Raises \<and> initial_seen (load_state sf2) \<noteq> Raises"
  then obtain S1 S2 where "initial_seen (load_state sf1) = Returns S1"
    "initial_seen (load_state sf2) = Returns S2"
    by (cases "initial_seen (load_state sf1)"; cases "initial_seen (load_state sf2)") auto
  then show "content_files fs (main L fs sf1 fd) = content_files fs (main L fs sf2 fd)"
    using process_items_ignores_seen [of L _ fs S1 0 S2 0]
    by (simp add: content_files_main split: feed.splits option.splits)
qed

theorem state_non_interference_witness:
  "main sample_library no_files nested_state (Root (Some [sample_item, linkless_item]))
     = Raised no_files Kept \<and>
   content_files no_files
      (main sample_library no_files Absent (Root (Some [sample_item, linkless_item])))
     = content_files no_files
      (main sample_library no_files sample_state (Root (Some [sample_item, linkless_item])))"
proof -
  have 1: "initial_seen (load_state nested_state) = Raises"
    by (simp add: initial_seen_def load_state_def nested_state_def py_set_def hashable_def)
  have 2: "initial_seen (load_state Absent) \<noteq> Raises"
    by (simp add: initial_seen_def load_state_def py_set_def)
  have 3: "initial_seen (load_state sample_state) \<noteq> Raises"
    by (simp add: initial_seen_def load_state_def sample_state_def py_set_def hashable_def)
  show ?thesis
    using state_non_interference [of nested_state sample_library no_files
        "Root (Some [sample_item, linkless_item])" Absent sample_state]
    by (simp only: 1 2 3 simp_thms)
qed

















end
